theory Spec2Isabelle
  imports Main "HOL-Library.Product_Lexorder"
begin

section \<open>Brand asset generator: \<^verbatim>\<open>scripts/generate-brand-assets.py\<close>\<close>

text \<open>
  The script renders one avatar SVG into a fixed set of PNG icons, an ICO container and
  a resized \<^verbatim>\<open>favicon.svg\<close>. Everything it does is file-system traffic and calls into
  two libraries (cairosvg, Pillow). The model therefore threads an explicit state (the
  files, the directories, and the list of conversion requests made so far) through every
  function, turns each exception into a value of \<open>error\<close>, and takes the two libraries
  as a record of functions.

  Scope of the model. A document is a \<open>string\<close>: the text that \<^verbatim>\<open>read_text\<close> returns and
  the bytes on disk are identified (no UTF-8 decoding error, no newline translation), and
  characters are 8 bit wide. A path names a file by its normalised components; symbolic
  links and the identification of a relative path with its absolute form are not modelled.
  Messages printed to stdout and stderr are left out; the count that the last message
  prints is the length of the list \<open>generated\<close> that \<open>main\<close> returns.
\<close>

subsection \<open>Constants\<close>

definition DEFAULT_SPECS :: "(string \<times> int list) list" where
  "DEFAULT_SPECS =
    [(''android-icon'', [36, 48, 72, 96, 144, 192]),
     (''apple-icon'', [57, 60, 72, 76, 114, 120, 144, 152, 180]),
     (''favicon'', [16, 32, 96]),
     (''ms-icon'', [70, 144, 150])]"

definition FAVICON_ICO_SIZES :: "int list" where
  "FAVICON_ICO_SIZES = [16, 32, 48]"

definition FAVICON_SVG_SIZE :: int where
  "FAVICON_SVG_SIZE = 48"

subsection \<open>Paths (\<^verbatim>\<open>pathlib.Path\<close> on POSIX)\<close>

text \<open>
  A path is its root (\<^verbatim>\<open>''\<close>, \<^verbatim>\<open>'/'\<close> or \<^verbatim>\<open>'//'\<close>) and its components. \<open>Path\<close> parses a
  string as pathlib does: split at \<^verbatim>\<open>/\<close>, drop empty and \<^verbatim>\<open>.\<close> components, keep \<^verbatim>\<open>..\<close>.
\<close>

datatype path = PosixPath (anchor: string) (parts: "string list")

fun split_slash :: "string \<Rightarrow> string list" where
  "split_slash [] = [[]]"
| "split_slash (c # cs) =
     (if c = CHR ''/'' then [] # split_slash cs
      else (case split_slash cs of
              [] \<Rightarrow> [[c]]
            | w # ws \<Rightarrow> (c # w) # ws))"

definition splitroot :: "string \<Rightarrow> string" where
  "splitroot s =
     (if take 1 s = ''/'' then
        (if take 2 s = ''//'' \<and> take 3 s \<noteq> ''///'' then ''//'' else ''/'')
      else [])"

definition Path :: "string \<Rightarrow> path" where
  "Path s = PosixPath (splitroot s) (filter (\<lambda>w. w \<noteq> [] \<and> w \<noteq> ''.'') (split_slash s))"

text \<open>\<^verbatim>\<open>p / s\<close>: a rooted right operand replaces the left one.\<close>

definition joinp :: "path \<Rightarrow> string \<Rightarrow> path" where
  "joinp p s =
     (if anchor (Path s) \<noteq> [] then Path s
      else PosixPath (anchor p) (parts p @ parts (Path s)))"

text \<open>\<^verbatim>\<open>p.parent\<close>: the root and the empty relative path are their own parents.\<close>

definition parent :: "path \<Rightarrow> path" where
  "parent p = PosixPath (anchor p) (butlast (parts p))"

subsection \<open>State and errors\<close>

datatype error =
    FileNotFoundError
  | FileExistsError
  | IsADirectoryError
  | NotADirectoryError
  | SameFileError
  | TypeError
  | IndexError
  | RenderFailure
  | ImageFailure
  | EncodeFailure

text \<open>One call \<^verbatim>\<open>cairosvg.svg2png(url, write_to, output_width, output_height)\<close>.\<close>

datatype request = Svg2png path "path option" int int

record state =
  files :: "path \<rightharpoonup> string"
  dirs :: "path set"
  requests :: "request list"

text \<open>
  A procedure returns \<open>(outcome, state)\<close>: the outcome is \<open>None\<close> when it returns
  normally and \<open>Some e\<close> when it raises \<open>e\<close>; the state is the one left behind in either
  case. Operations that change nothing when they fail return \<open>error + state\<close>.
\<close>

definition path_exists :: "state \<Rightarrow> path \<Rightarrow> bool" where
  "path_exists s p = (p \<in> dirs s \<or> files s p \<noteq> None)"

text \<open>\<^verbatim>\<open>open(p).read()\<close>\<close>

definition read_file :: "path \<Rightarrow> state \<Rightarrow> error + string" where
  "read_file p s =
     (case files s p of
        Some d \<Rightarrow> Inr d
      | None \<Rightarrow> Inl (if p \<in> dirs s then IsADirectoryError else FileNotFoundError))"

text \<open>\<^verbatim>\<open>open(p, 'w').write(d)\<close>: creates or truncates the file; never creates a directory.\<close>

definition write_file :: "path \<Rightarrow> string \<Rightarrow> state \<Rightarrow> error + state" where
  "write_file p d s =
     (if p \<in> dirs s then Inl IsADirectoryError
      else if parent p \<notin> dirs s then
        Inl (if files s (parent p) \<noteq> None then NotADirectoryError else FileNotFoundError)
      else Inr (s\<lparr>files := (files s)(p \<mapsto> d)\<rparr>))"

text \<open>\<^verbatim>\<open>os.mkdir(p)\<close>\<close>

definition os_mkdir :: "path \<Rightarrow> state \<Rightarrow> error + state" where
  "os_mkdir p s =
     (if path_exists s p then Inl FileExistsError
      else if parent p \<in> dirs s then Inr (s\<lparr>dirs := insert p (dirs s)\<rparr>)
      else if files s (parent p) \<noteq> None then Inl NotADirectoryError
      else Inl FileNotFoundError)"

text \<open>
  \<^verbatim>\<open>p.mkdir(parents=False, exist_ok=True)\<close>: an error of \<^verbatim>\<open>os.mkdir\<close> other than
  FileNotFoundError is swallowed when \<open>p\<close> is a directory.
\<close>

definition mkdir_exist_ok :: "path \<Rightarrow> state \<Rightarrow> error option \<times> state" where
  "mkdir_exist_ok p s =
     (case os_mkdir p s of
        Inr s' \<Rightarrow> (None, s')
      | Inl e \<Rightarrow>
          if e = FileNotFoundError then (Some e, s)
          else if p \<in> dirs s then (None, s)
          else (Some e, s))"

text \<open>
  \<^verbatim>\<open>p.mkdir(parents=True, exist_ok=True)\<close>: on FileNotFoundError pathlib creates the
  parent the same way and then \<open>p\<close> itself, unless \<open>p\<close> is its own parent.
\<close>

function mkdir_parents :: "path \<Rightarrow> state \<Rightarrow> error option \<times> state" where
  "mkdir_parents p s =
     (case os_mkdir p s of
        Inr s' \<Rightarrow> (None, s')
      | Inl e \<Rightarrow>
          if e = FileNotFoundError then
            (if parent p = p then (Some e, s)
             else (case mkdir_parents (parent p) s of
                     (Some e', s') \<Rightarrow> (Some e', s')
                   | (None, s') \<Rightarrow> mkdir_exist_ok p s'))
          else if p \<in> dirs s then (None, s)
          else (Some e, s))"
  by pat_completeness auto
termination
proof (relation "measure (\<lambda>(p, s). length (parts p))")
  show "wf (measure (\<lambda>(p, s). length (parts p)))"
    by simp
next
  fix p :: path and s :: state and e :: error
  assume "parent p \<noteq> p"
  then have "parts p \<noteq> []"
    by (cases p) (auto simp: parent_def)
  then show "((parent p, s), (p, s)) \<in> measure (\<lambda>(p, s). length (parts p))"
    by (simp add: parent_def)
qed

declare mkdir_parents.simps [simp del]

text \<open>
  \<^verbatim>\<open>shutil.copyfile(src, dst)\<close>: refuses to copy a file onto itself, then opens the source
  for reading and the destination for writing.
\<close>

definition copyfile :: "path \<Rightarrow> path \<Rightarrow> state \<Rightarrow> error + state" where
  "copyfile src dst s =
     (if path_exists s src \<and> path_exists s dst \<and> src = dst then Inl SameFileError
      else (case read_file src s of
              Inl e \<Rightarrow> Inl e
            | Inr d \<Rightarrow> write_file dst d s))"

subsection \<open>The three regular expressions\<close>

text \<open>
  The script uses three patterns, each written as a raw string with a doubled backslash:
  \<^verbatim>\<open>r"<svg\\b[^>]*>"\<close> (with \<^verbatim>\<open>re.IGNORECASE\<close>), \<^verbatim>\<open>r'\\bwidth="[^"]*"'\<close> and
  \<^verbatim>\<open>r'\\bheight="[^"]*"'\<close>. In a raw string \<^verbatim>\<open>\\\<close> stays two characters, which the
  regular expression reads as one escaped, literal backslash; the \<^verbatim>\<open>b\<close> after it is then
  the letter b and not a word boundary. Each pattern is thus a literal text, followed by
  the longest run of characters other than a stop character, followed by the stop character.
\<close>

definition backslash :: char where
  "backslash = CHR 0x5C"

definition dquote :: char where
  "dquote = CHR 0x22"

definition svg_literal :: string where
  "svg_literal = ''<svg'' @ [backslash] @ ''b''"

definition attr_literal :: "string \<Rightarrow> string" where
  "attr_literal name = [backslash] @ ''b'' @ name @ ''='' @ [dquote]"

text \<open>Case folding of \<^verbatim>\<open>re.IGNORECASE\<close>, on 8-bit characters compared with an ASCII letter.\<close>

definition tolower :: "char \<Rightarrow> char" where
  "tolower c =
     (case map_of (zip ''ABCDEFGHIJKLMNOPQRSTUVWXYZ'' ''abcdefghijklmnopqrstuvwxyz'') c of
        Some l \<Rightarrow> l
      | None \<Rightarrow> c)"

fun match_literal :: "bool \<Rightarrow> string \<Rightarrow> string \<Rightarrow> bool" where
  "match_literal ic [] s = True"
| "match_literal ic (p # ps) [] = False"
| "match_literal ic (p # ps) (c # cs) =
     ((if ic then tolower c = tolower p else c = p) \<and> match_literal ic ps cs)"

text \<open>
  The length of the match of \<^verbatim>\<open>lit[^stop]*stop\<close> at the start of \<open>s\<close>, if there is one.
  The run cannot cross a stop character, so the match ends at the first one after the
  literal.
\<close>

definition match_here :: "bool \<Rightarrow> string \<Rightarrow> char \<Rightarrow> string \<Rightarrow> nat option" where
  "match_here ic lit stop s =
     (if match_literal ic lit s \<and> stop \<in> set (drop (length lit) s)
      then Some (length lit + length (takeWhile (\<lambda>c. c \<noteq> stop) (drop (length lit) s)) + 1)
      else None)"

text \<open>\<^verbatim>\<open>re.search\<close>: the leftmost match, as \<open>(start, end)\<close>.\<close>

fun re_search_from :: "nat \<Rightarrow> bool \<Rightarrow> string \<Rightarrow> char \<Rightarrow> string \<Rightarrow> (nat \<times> nat) option" where
  "re_search_from i ic lit stop [] = None"
| "re_search_from i ic lit stop (c # cs) =
     (case match_here ic lit stop (c # cs) of
        Some n \<Rightarrow> Some (i, i + n)
      | None \<Rightarrow> re_search_from (Suc i) ic lit stop cs)"

definition re_search :: "bool \<Rightarrow> string \<Rightarrow> char \<Rightarrow> string \<Rightarrow> (nat \<times> nat) option" where
  "re_search ic lit stop s = re_search_from 0 ic lit stop s"

text \<open>\<^verbatim>\<open>re.sub\<close>: every match, left to right and without overlap, is replaced.\<close>

function re_sub :: "string \<Rightarrow> char \<Rightarrow> string \<Rightarrow> string \<Rightarrow> string" where
  "re_sub lit stop repl [] = []"
| "re_sub lit stop repl (c # cs) =
     (case match_here False lit stop (c # cs) of
        Some n \<Rightarrow> repl @ re_sub lit stop repl (drop n (c # cs))
      | None \<Rightarrow> c # re_sub lit stop repl cs)"
  by pat_completeness auto
termination
  by (relation "measure (\<lambda>(lit, stop, repl, s). length s)")
     (auto simp: match_here_def split: if_splits)

subsection \<open>String helpers\<close>

text \<open>\<^verbatim>\<open>str(n)\<close> for a Python int, as the f-strings format it.\<close>

function str_nat :: "nat \<Rightarrow> string" where
  "str_nat n =
     (if n < 10 then [''0123456789'' ! n]
      else str_nat (n div 10) @ [''0123456789'' ! (n mod 10)])"
  by pat_completeness auto
termination
  by (relation "measure id") auto

declare str_nat.simps [simp del]

definition str_int :: "int \<Rightarrow> string" where
  "str_int i = (if i < 0 then CHR ''-'' # str_nat (nat (- i)) else str_nat (nat i))"

definition endswith :: "string \<Rightarrow> string \<Rightarrow> bool" where
  "endswith s suffix =
     (length suffix \<le> length s \<and> drop (length s - length suffix) s = suffix)"

subsection \<open>\<^verbatim>\<open>write_favicon_svg\<close>\<close>

text \<open>
  Lines 113 to 119 of the script set the width and lines 121 to 127 repeat the same
  statements for the height; \<open>set_dimension\<close> is that block with the attribute name as
  a parameter. \<^verbatim>\<open>updated[:-2]\<close> and \<^verbatim>\<open>updated[:-1]\<close> drop the closing of the tag.
\<close>

definition set_dimension :: "string \<Rightarrow> int \<Rightarrow> string \<Rightarrow> string" where
  "set_dimension name size' updated =
     (if re_search False (attr_literal name) dquote updated \<noteq> None then
        re_sub (attr_literal name) dquote (name @ ''='' @ [dquote] @ str_int size' @ [dquote]) updated
      else if endswith updated ''/>'' then
        take (length updated - 2) updated
          @ '' '' @ name @ ''='' @ [dquote] @ str_int size' @ [dquote] @ ''/>''
      else
        take (length updated - 1) updated
          @ '' '' @ name @ ''='' @ [dquote] @ str_int size' @ [dquote] @ ''>'')"

definition write_favicon_svg :: "path \<Rightarrow> path \<Rightarrow> int \<Rightarrow> state \<Rightarrow> error option \<times> state" where
  "write_favicon_svg svg_path out_path size' s =
     (case read_file svg_path s of
        Inl e \<Rightarrow> (Some e, s)
      | Inr content \<Rightarrow>
          (case re_search True svg_literal (CHR ''>'') content of
             None \<Rightarrow>
               (case copyfile svg_path out_path s of
                  Inl e \<Rightarrow> (Some e, s)
                | Inr s' \<Rightarrow> (None, s'))
           | Some (start, end') \<Rightarrow>
               (let tag = take (end' - start) (drop start content);
                    updated = set_dimension ''height'' size' (set_dimension ''width'' size' tag);
                    content' = take start content @ updated @ drop end' content
                in case mkdir_parents (parent out_path) s of
                     (Some e, s1) \<Rightarrow> (Some e, s1)
                   | (None, s1) \<Rightarrow>
                       (case write_file out_path content' s1 of
                          Inl e \<Rightarrow> (Some e, s1)
                        | Inr s2 \<Rightarrow> (None, s2)))))"

subsection \<open>The libraries\<close>

text \<open>
  cairosvg and Pillow are not part of the repository. The model takes what they compute
  as parameters: whether each module imports, the PNG bytes that cairosvg renders from
  an SVG text at a requested width and height, the image that Pillow opens from PNG
  bytes and its size in pixels, the scaled-down copy that Pillow makes of the images it
  was given for a size that none of them has, and the bytes of an ICO file that holds a
  given list of frames. \<open>None\<close> stands for an exception raised by the library.
\<close>

record 'img libs =
  has_cairosvg :: bool
  has_pillow :: bool
  convert :: "string \<Rightarrow> int \<Rightarrow> int \<Rightarrow> string option"
  open_image :: "string \<Rightarrow> 'img option"
  image_size :: "'img \<Rightarrow> int \<times> int"
  scale_down :: "'img list \<Rightarrow> int \<times> int \<Rightarrow> 'img"
  write_ico :: "'img list \<Rightarrow> string option"

text \<open>
  \<^verbatim>\<open>cairosvg.svg2png(url=..., write_to=..., output_width=..., output_height=...)\<close>: reads
  the SVG at \<open>url\<close>, renders it, and either writes the PNG to \<open>write_to\<close> and returns
  \<^verbatim>\<open>None\<close>, or returns the bytes when no \<open>write_to\<close> is given. The request is logged.
\<close>

definition svg2png ::
  "'img libs \<Rightarrow> path \<Rightarrow> path option \<Rightarrow> int \<Rightarrow> int \<Rightarrow> state \<Rightarrow> (error + string option) \<times> state" where
  "svg2png L url write_to output_width output_height s =
     (let s1 = s\<lparr>requests := requests s @ [Svg2png url write_to output_width output_height]\<rparr>
      in case read_file url s1 of
           Inl e \<Rightarrow> (Inl e, s1)
         | Inr svg \<Rightarrow>
             (case convert L svg output_width output_height of
                None \<Rightarrow> (Inl RenderFailure, s1)
              | Some png \<Rightarrow>
                  (case write_to of
                     None \<Rightarrow> (Inr (Some png), s1)
                   | Some out \<Rightarrow>
                       (case write_file out png s1 of
                          Inl e \<Rightarrow> (Inl e, s1)
                        | Inr s2 \<Rightarrow> (Inr None, s2)))))"

text \<open>
  The frames that Pillow's ICO writer puts into the file, as Pillow documents its
  \<^verbatim>\<open>sizes\<close> and \<^verbatim>\<open>append_images\<close> arguments. It goes through the requested sizes in
  ascending order without repetition (\<^verbatim>\<open>sorted(set(sizes))\<close>). A size that is wider or
  higher than the image being saved, or than 256 pixels, is ignored. For every other
  size the frame is the first among the saved image and the appended images that has
  exactly this size, and a scaled-down copy when there is none.
\<close>

definition ico_frames ::
  "'img libs \<Rightarrow> 'img \<Rightarrow> (int \<times> int) list \<Rightarrow> 'img list \<Rightarrow> 'img list" where
  "ico_frames L im sizes append_images =
     map (\<lambda>size'.
            case find (\<lambda>provided. image_size L provided = size') (im # append_images) of
              Some provided \<Rightarrow> provided
            | None \<Rightarrow> scale_down L (im # append_images) size')
       (filter (\<lambda>(w, h). \<not> (w > fst (image_size L im) \<or> h > snd (image_size L im) \<or>
                             w > 256 \<or> h > 256))
          (sort (remdups sizes)))"

text \<open>
  \<^verbatim>\<open>image.save(path, format="ICO", sizes=..., append_images=...)\<close>: Pillow opens the
  destination for writing, then encodes into it. When the encoder raises, a file that
  the call created is removed again and a file that was there before stays truncated.
\<close>

definition Image_save ::
  "'img libs \<Rightarrow> 'img \<Rightarrow> path \<Rightarrow> (int \<times> int) list \<Rightarrow> 'img list \<Rightarrow> state \<Rightarrow> error option \<times> state" where
  "Image_save L im out sizes append_images s =
     (case write_file out [] s of
        Inl e \<Rightarrow> (Some e, s)
      | Inr s1 \<Rightarrow>
          (case write_ico L (ico_frames L im sizes append_images) of
             None \<Rightarrow> (Some EncodeFailure, if files s out = None then s else s1)
           | Some ico \<Rightarrow> (None, s1\<lparr>files := (files s1)(out \<mapsto> ico)\<rparr>)))"

subsection \<open>\<^verbatim>\<open>render_png\<close> and \<^verbatim>\<open>render_ico\<close>\<close>

definition render_png ::
  "'img libs \<Rightarrow> path \<Rightarrow> path \<Rightarrow> int \<Rightarrow> state \<Rightarrow> error option \<times> state" where
  "render_png L svg_path out_path size' s =
     (case mkdir_parents (parent out_path) s of
        (Some e, s1) \<Rightarrow> (Some e, s1)
      | (None, s1) \<Rightarrow>
          (case svg2png L svg_path (Some out_path) size' size' s1 of
             (Inl e, s2) \<Rightarrow> (Some e, s2)
           | (Inr _, s2) \<Rightarrow> (None, s2)))"

text \<open>
  The loop of \<^verbatim>\<open>render_ico\<close> (lines 85 to 92): one in-memory conversion and one
  \<^verbatim>\<open>Image.open\<close> per size, the images collected in order.
\<close>

fun render_frames ::
  "'img libs \<Rightarrow> path \<Rightarrow> int list \<Rightarrow> 'img list \<Rightarrow> state \<Rightarrow> (error + 'img list) \<times> state" where
  "render_frames L svg_path [] images s = (Inr images, s)"
| "render_frames L svg_path (size' # rest) images s =
     (case svg2png L svg_path None size' size' s of
        (Inl e, s1) \<Rightarrow> (Inl e, s1)
      | (Inr None, s1) \<Rightarrow> (Inl TypeError, s1)
      | (Inr (Some png_bytes), s1) \<Rightarrow>
          (case open_image L png_bytes of
             None \<Rightarrow> (Inl ImageFailure, s1)
           | Some im \<Rightarrow> render_frames L svg_path rest (images @ [im]) s1))"

definition render_ico ::
  "'img libs \<Rightarrow> path \<Rightarrow> path \<Rightarrow> state \<Rightarrow> error option \<times> state" where
  "render_ico L svg_path out_path s =
     (case render_frames L svg_path FAVICON_ICO_SIZES [] s of
        (Inl e, s1) \<Rightarrow> (Some e, s1)
      | (Inr images, s1) \<Rightarrow>
          (case mkdir_parents (parent out_path) s1 of
             (Some e, s2) \<Rightarrow> (Some e, s2)
           | (None, s2) \<Rightarrow>
               (case images of
                  [] \<Rightarrow> (Some IndexError, s2)
                | first # others \<Rightarrow>
                    Image_save L first out_path
                      (map (\<lambda>size'. (size', size')) FAVICON_ICO_SIZES) others s2)))"

subsection \<open>\<^verbatim>\<open>main\<close>\<close>

record args =
  avatar_svg :: "string option"
  extended_light :: "string option"
  extended_dark :: "string option"
  out_dir :: string
  skip_favicon_svg :: bool

text \<open>
  \<^verbatim>\<open>resolve_svg\<close> is local to \<^verbatim>\<open>main\<close> and closes over \<^verbatim>\<open>script_dir\<close>, the
  resolved directory of the script, which the model takes as a parameter. \<^verbatim>\<open>if arg_value\<close>
  holds for a string that is neither \<^verbatim>\<open>None\<close> nor empty.
\<close>

definition resolve_svg :: "path \<Rightarrow> state \<Rightarrow> string option \<Rightarrow> string \<Rightarrow> string \<Rightarrow> path" where
  "resolve_svg script_dir s arg_value script_name fallback =
     (case arg_value of
        Some v \<Rightarrow>
          if v \<noteq> [] then Path v
          else if path_exists s (joinp script_dir script_name) then joinp script_dir script_name
          else Path fallback
      | None \<Rightarrow>
          if path_exists s (joinp script_dir script_name) then joinp script_dir script_name
          else Path fallback)"

definition filename :: "string \<Rightarrow> int \<Rightarrow> string" where
  "filename prefix size' = prefix @ ''-'' @ str_int size' @ ''x'' @ str_int size' @ ''.png''"

text \<open>
  The inner and the outer loop of lines 166 to 170. Each takes the list \<open>generated\<close>
  and the state and returns them updated; an exception ends the loops where it is raised.
\<close>

fun render_sizes ::
  "'img libs \<Rightarrow> path \<Rightarrow> path \<Rightarrow> string \<Rightarrow> int list \<Rightarrow> path list \<Rightarrow> state
     \<Rightarrow> error option \<times> path list \<times> state" where
  "render_sizes L avatar out prefix [] generated s = (None, generated, s)"
| "render_sizes L avatar out prefix (size' # sizes) generated s =
     (case render_png L avatar (joinp out (filename prefix size')) size' s of
        (Some e, s1) \<Rightarrow> (Some e, generated, s1)
      | (None, s1) \<Rightarrow>
          render_sizes L avatar out prefix sizes
            (generated @ [joinp out (filename prefix size')]) s1)"

fun render_specs ::
  "'img libs \<Rightarrow> path \<Rightarrow> path \<Rightarrow> (string \<times> int list) list \<Rightarrow> path list \<Rightarrow> state
     \<Rightarrow> error option \<times> path list \<times> state" where
  "render_specs L avatar out [] generated s = (None, generated, s)"
| "render_specs L avatar out ((prefix, sizes) # specs) generated s =
     (case render_sizes L avatar out prefix sizes generated s of
        (Some e, generated1, s1) \<Rightarrow> (Some e, generated1, s1)
      | (None, generated1, s1) \<Rightarrow> render_specs L avatar out specs generated1 s1)"

text \<open>
  How the process ends: \<open>Exit n\<close> when \<^verbatim>\<open>main\<close> returns \<open>n\<close> or \<^verbatim>\<open>sys.exit(n)\<close> is
  called, \<open>Raised e\<close> when an exception leaves \<^verbatim>\<open>main\<close>. The interpreter turns an
  uncaught exception into exit status 1.
\<close>

datatype outcome = Exit int | Raised error

fun exit_status :: "outcome \<Rightarrow> int" where
  "exit_status (Exit n) = n"
| "exit_status (Raised e) = 1"

text \<open>
  \<^verbatim>\<open>main\<close> returns how it ended, the list \<open>generated\<close> as it stood then, and the state.
  The extended SVGs are resolved and only looked at for a warning, which the model does
  not print; \<^verbatim>\<open>require_packages\<close> exits with status 1 when an import fails.
\<close>

definition require_packages :: "'img libs \<Rightarrow> bool" where
  "require_packages L = (has_cairosvg L \<and> has_pillow L)"

definition main :: "'img libs \<Rightarrow> path \<Rightarrow> args \<Rightarrow> state \<Rightarrow> outcome \<times> path list \<times> state" where
  "main L script_dir a s =
     (let avatar = resolve_svg script_dir s (avatar_svg a)
                     ''logo_thumbnail.svg'' ''brand-assets/logo_thumbnail.svg'';
          out = Path (out_dir a)
      in if \<not> path_exists s avatar then (Exit 1, [], s)
         else if \<not> require_packages L then (Exit 1, [], s)
         else
           (case render_specs L avatar out DEFAULT_SPECS [] s of
              (Some e, generated1, s1) \<Rightarrow> (Raised e, generated1, s1)
            | (None, generated1, s1) \<Rightarrow>
                (case render_ico L avatar (joinp out ''favicon.ico'') s1 of
                   (Some e, s2) \<Rightarrow> (Raised e, generated1, s2)
                 | (None, s2) \<Rightarrow>
                     (if \<not> skip_favicon_svg a then
                        (case write_favicon_svg avatar (joinp out ''favicon.svg'')
                                FAVICON_SVG_SIZE s2 of
                           (Some e, s3) \<Rightarrow>
                             (Raised e, generated1 @ [joinp out ''favicon.ico''], s3)
                         | (None, s3) \<Rightarrow>
                             (Exit 0,
                              generated1 @ [joinp out ''favicon.ico'']
                                @ [joinp out ''favicon.svg''], s3))
                      else (Exit 0, generated1 @ [joinp out ''favicon.ico''], s2)))))"

text \<open>
  The file names and sizes that the two loops go through, in their order. It is used to
  state what the loops have done.
\<close>

definition planned_pngs :: "(string \<times> int list) list \<Rightarrow> (string \<times> int) list" where
  "planned_pngs specs =
     concat (map (\<lambda>(prefix, sizes). map (\<lambda>size'. (filename prefix size', size')) sizes) specs)"

subsection \<open>Example inputs\<close>

text \<open>
  Concrete libraries, documents and states on which the theorems below are instantiated.
  The example converter returns a text naming the requested size, and an example image is
  that text; its size is the requested one for the three frames of the icon container.
  The example ICO file lists the frames it holds.
\<close>

definition example_libs :: "string libs" where
  "example_libs =
     \<lparr>has_cairosvg = True, has_pillow = True,
      convert = (\<lambda>svg w h. Some (''PNG '' @ str_int w @ ''x'' @ str_int h)),
      open_image = Some,
      image_size = (\<lambda>im. if im = ''PNG 16x16'' then (16, 16)
                          else if im = ''PNG 32x32'' then (32, 32)
                          else if im = ''PNG 48x48'' then (48, 48)
                          else (0, 0)),
      scale_down = (\<lambda>provided size'. ''scaled '' @ hd provided),
      write_ico = (\<lambda>frames. Some (''ICO'' @ concat (map (\<lambda>f. '' '' @ f) frames)))\<rparr>"

definition failing_libs :: "string libs" where
  "failing_libs =
     example_libs\<lparr>convert := (\<lambda>svg w h. if w = 32 then None
                                        else convert example_libs svg w h)\<rparr>"

definition plain_svg :: string where
  \<open>plain_svg = ''<svg viewBox="0 0 100 100"></svg>''\<close>

definition sized_svg :: string where
  \<open>sized_svg = ''<svg width="200" height="200"></svg>''\<close>

definition untagged :: string where
  \<open>untagged = ''<root/>''\<close>

text \<open>A document whose root tag carries the backslash that the pattern asks for.\<close>

definition escaped_svg :: string where
  \<open>escaped_svg = ''<svg'' @ [backslash] @ ''b width="200"/>''\<close>

definition example_state :: state where
  "example_state =
     \<lparr>files = [PosixPath [] [''logo_thumbnail.svg''] \<mapsto> plain_svg],
      dirs = {PosixPath [] [], PosixPath ''/'' [], PosixPath ''/'' [''repo'']},
      requests = []\<rparr>"

definition docs_state :: state where
  "docs_state =
     \<lparr>files = [PosixPath [] [''logo_thumbnail.svg''] \<mapsto> plain_svg,
               PosixPath [] [''sized.svg''] \<mapsto> sized_svg,
               PosixPath [] [''notes.xml''] \<mapsto> untagged,
               PosixPath [] [''escaped.svg''] \<mapsto> escaped_svg],
      dirs = {PosixPath [] []},
      requests = []\<rparr>"

definition example_args :: args where
  "example_args =
     \<lparr>avatar_svg = Some ''logo_thumbnail.svg'', extended_light = None, extended_dark = None,
      out_dir = ''public/icons'', skip_favicon_svg = False\<rparr>"

section \<open>Properties\<close>

subsection \<open>Directories and files\<close>

lemma os_mkdir_Inr: "os_mkdir p s = Inr s' \<Longrightarrow> s' = s\<lparr>dirs := insert p (dirs s)\<rparr>"
  by (auto simp: os_mkdir_def split: if_splits)

lemma mkdir_exist_ok_frame:
  "mkdir_exist_ok p s = (r, s') \<Longrightarrow>
     files s' = files s \<and> requests s' = requests s \<and> dirs s \<subseteq> dirs s'"
  by (auto simp: mkdir_exist_ok_def split: sum.splits if_splits dest!: os_mkdir_Inr)

lemma mkdir_parents_frame:
  "mkdir_parents p s = (r, s') \<Longrightarrow>
     files s' = files s \<and> requests s' = requests s \<and> dirs s \<subseteq> dirs s'"
proof (induction p s arbitrary: r s' rule: mkdir_parents.induct)
  case (1 p s)
  show ?case
  proof (cases "os_mkdir p s")
    case (Inr t)
    with "1.prems" show ?thesis
      by (auto simp: mkdir_parents.simps [of p s] dest!: os_mkdir_Inr)
  next
    case (Inl e)
    show ?thesis
    proof (cases "e = FileNotFoundError \<and> parent p \<noteq> p")
      case False
      with Inl "1.prems" show ?thesis
        by (auto simp: mkdir_parents.simps [of p s] split: if_splits)
    next
      case True
      obtain r1 s1 where up: "mkdir_parents (parent p) s = (r1, s1)"
        by (cases "mkdir_parents (parent p) s")
      from "1.IH" [OF Inl _ _ up] True
      have f1: "files s1 = files s \<and> requests s1 = requests s \<and> dirs s \<subseteq> dirs s1"
        by simp
      show ?thesis
      proof (cases r1)
        case (Some e1)
        with Inl True up "1.prems" f1 show ?thesis
          by (simp add: mkdir_parents.simps [of p s])
      next
        case None
        with Inl True up "1.prems" have "mkdir_exist_ok p s1 = (r, s')"
          by (simp add: mkdir_parents.simps [of p s])
        from mkdir_exist_ok_frame [OF this] f1 show ?thesis
          by auto
      qed
    qed
  qed
qed

lemma mkdir_parents_noop: "p \<in> dirs s \<Longrightarrow> mkdir_parents p s = (None, s)"
  by (simp add: mkdir_parents.simps [of p s] os_mkdir_def path_exists_def)

lemma mkdir_exist_ok_success: "mkdir_exist_ok p s = (None, s') \<Longrightarrow> p \<in> dirs s'"
  by (auto simp: mkdir_exist_ok_def split: sum.splits if_splits dest!: os_mkdir_Inr)

lemma mkdir_parents_success: "mkdir_parents p s = (None, s') \<Longrightarrow> p \<in> dirs s'"
proof (induction p s arbitrary: s' rule: mkdir_parents.induct)
  case (1 p s)
  then show ?case
    by (auto simp: mkdir_parents.simps [of p s] split: sum.splits if_splits option.splits prod.splits
        dest!: os_mkdir_Inr mkdir_exist_ok_success)
qed

lemma write_file_Inr:
  "write_file p d s = Inr s' \<Longrightarrow>
     s' = s\<lparr>files := (files s)(p \<mapsto> d)\<rparr> \<and> parent p \<in> dirs s \<and> p \<notin> dirs s"
  by (auto simp: write_file_def split: if_splits)

lemma svg2png_memory:
  "svg2png L url None w h s = (r, s') \<Longrightarrow>
     files s' = files s \<and> dirs s' = dirs s \<and> requests s' = requests s @ [Svg2png url None w h]"
  by (auto simp: svg2png_def Let_def read_file_def split: sum.splits option.splits if_splits)

lemma svg2png_memory_ok:
  "svg2png L url None w h s = (Inr b, s') \<Longrightarrow>
     \<exists>d png. files s url = Some d \<and> convert L d w h = Some png \<and> b = Some png"
  by (auto simp: svg2png_def Let_def read_file_def split: sum.splits option.splits if_splits
      intro: sym)

lemma svg2png_file:
  "svg2png L url (Some out) w h s = (r, s') \<Longrightarrow>
     dirs s' = dirs s \<and> requests s' = requests s @ [Svg2png url (Some out) w h] \<and>
     (\<forall>p. p \<noteq> out \<longrightarrow> files s' p = files s p) \<and>
     (files s out \<noteq> None \<longrightarrow> files s' out \<noteq> None)"
  by (auto simp: svg2png_def Let_def read_file_def write_file_def
      split: sum.splits option.splits if_splits)

lemma svg2png_file_ok:
  "svg2png L url (Some out) w h s = (Inr b, s') \<Longrightarrow>
     \<exists>d png. files s url = Some d \<and> convert L d w h = Some png \<and>
       files s' = (files s)(out \<mapsto> png) \<and> parent out \<in> dirs s"
  by (auto simp: svg2png_def Let_def read_file_def write_file_def
      split: sum.splits option.splits if_splits)

lemma render_png_frame:
  assumes "render_png L svg out sz s = (r, s')"
  shows "dirs s \<subseteq> dirs s'"
    and "\<And>p. p \<noteq> out \<Longrightarrow> files s' p = files s p"
    and "\<And>p. files s p \<noteq> None \<Longrightarrow> files s' p \<noteq> None"
proof -
  obtain r1 s1 where m: "mkdir_parents (parent out) s = (r1, s1)"
    by (cases "mkdir_parents (parent out) s")
  note f1 = mkdir_parents_frame [OF m]
  show "dirs s \<subseteq> dirs s'"
  proof (cases r1)
    case (Some e)
    with assms m f1 show ?thesis by (simp add: render_png_def)
  next
    case None
    obtain r2 s2 where c: "svg2png L svg (Some out) sz sz s1 = (r2, s2)"
      by (cases "svg2png L svg (Some out) sz sz s1")
    with assms m None have "s' = s2"
      by (auto simp: render_png_def split: sum.splits)
    with svg2png_file [OF c] f1 show ?thesis by simp
  qed
  show "files s' p = files s p" if "p \<noteq> out" for p
  proof (cases r1)
    case (Some e)
    with assms m f1 show ?thesis by (simp add: render_png_def)
  next
    case None
    obtain r2 s2 where c: "svg2png L svg (Some out) sz sz s1 = (r2, s2)"
      by (cases "svg2png L svg (Some out) sz sz s1")
    with assms m None have "s' = s2"
      by (auto simp: render_png_def split: sum.splits)
    with svg2png_file [OF c] f1 that show ?thesis by simp
  qed
  show "files s' p \<noteq> None" if "files s p \<noteq> None" for p
  proof (cases r1)
    case (Some e)
    with assms m f1 that show ?thesis by (simp add: render_png_def)
  next
    case None
    obtain r2 s2 where c: "svg2png L svg (Some out) sz sz s1 = (r2, s2)"
      by (cases "svg2png L svg (Some out) sz sz s1")
    with assms m None have "s' = s2"
      by (auto simp: render_png_def split: sum.splits)
    with svg2png_file [OF c] f1 that show ?thesis by (cases "p = out") auto
  qed
qed

lemma render_png_ok:
  assumes "render_png L svg out sz s = (None, s')"
  shows "requests s' = requests s @ [Svg2png svg (Some out) sz sz]"
    and "\<exists>d png. files s svg = Some d \<and> convert L d sz sz = Some png \<and>
           files s' = (files s)(out \<mapsto> png)"
    and "parent out \<in> dirs s'"
proof -
  obtain r1 s1 where m: "mkdir_parents (parent out) s = (r1, s1)"
    by (cases "mkdir_parents (parent out) s")
  note f1 = mkdir_parents_frame [OF m]
  from assms m have r1: "r1 = None"
    by (cases r1) (auto simp: render_png_def)
  obtain r2 s2 where c: "svg2png L svg (Some out) sz sz s1 = (r2, s2)"
    by (cases "svg2png L svg (Some out) sz sz s1")
  with assms m r1 obtain b where r2: "r2 = Inr b" and s2: "s' = s2"
    by (cases r2) (auto simp: render_png_def)
  from svg2png_file [OF c] f1 s2
  show "requests s' = requests s @ [Svg2png svg (Some out) sz sz]" by simp
  from svg2png_file_ok [OF c [unfolded r2]] f1 s2
  show "\<exists>d png. files s svg = Some d \<and> convert L d sz sz = Some png \<and>
           files s' = (files s)(out \<mapsto> png)" by auto
  from svg2png_file_ok [OF c [unfolded r2]] svg2png_file [OF c] s2
  show "parent out \<in> dirs s'" by auto
qed

subsection \<open>The icon container\<close>

lemma render_frames_frame:
  "render_frames L svg sizes images s = (r, s') \<Longrightarrow> files s' = files s \<and> dirs s' = dirs s"
proof (induction sizes arbitrary: images s)
  case Nil
  then show ?case by simp
next
  case (Cons sz sizes)
  obtain r1 s1 where c: "svg2png L svg None sz sz s = (r1, s1)"
    by (cases "svg2png L svg None sz sz s")
  note f1 = svg2png_memory [OF c]
  from Cons.prems c f1 Cons.IH show ?case
    by (auto split: sum.splits option.splits)
qed

lemma render_frames_raises:
  assumes "sz \<in> set sizes"
    and "\<forall>d png. files s svg = Some d \<longrightarrow> convert L d sz sz = Some png \<longrightarrow> open_image L png = None"
  shows "\<exists>e s'. render_frames L svg sizes images s = (Inl e, s')"
  using assms
proof (induction sizes arbitrary: images s)
  case Nil
  then show ?case by simp
next
  case (Cons a sizes)
  obtain r1 s1 where c: "svg2png L svg None a a s = (r1, s1)"
    by (cases "svg2png L svg None a a s")
  note f1 = svg2png_memory [OF c]
  show ?case
  proof (cases r1)
    case (Inl e)
    with c show ?thesis by simp
  next
    case (Inr b)
    from svg2png_memory_ok [OF c [unfolded Inr]]
    obtain d png where d: "files s svg = Some d" "convert L d a a = Some png" "b = Some png"
      by blast
    show ?thesis
    proof (cases "open_image L png")
      case None
      with c Inr d show ?thesis by simp
    next
      case (Some im)
      with d Cons.prems have "sz \<noteq> a" by auto
      with Cons.prems have "sz \<in> set sizes" by simp
      moreover from Cons.prems(2) f1
      have "\<forall>d png. files s1 svg = Some d \<longrightarrow> convert L d sz sz = Some png \<longrightarrow> open_image L png = None"
        by simp
      ultimately obtain e s' where "render_frames L svg sizes (images @ [im]) s1 = (Inl e, s')"
        using Cons.IH by blast
      with c Inr d Some show ?thesis by simp
    qed
  qed
qed

text \<open>
  C10. If the conversion of a frame raises (the source cannot be read, cairosvg raises, or
  Pillow cannot open the bytes, at one of the three sizes), \<open>render_ico\<close> raises and
  leaves files and directories as they were: no destination file, no parent directory.
\<close>

theorem render_ico_failure_writes_nothing:
  assumes "sz \<in> set FAVICON_ICO_SIZES"
    and "\<forall>d png. files s svg_path = Some d \<longrightarrow> convert L d sz sz = Some png
           \<longrightarrow> open_image L png = None"
  shows "\<exists>e s'. render_ico L svg_path out_path s = (Some e, s') \<and>
           files s' = files s \<and> dirs s' = dirs s"
proof -
  from render_frames_raises [OF assms]
  obtain e s' where r: "render_frames L svg_path FAVICON_ICO_SIZES [] s = (Inl e, s')"
    by blast
  from render_frames_frame [OF r] r show ?thesis
    by (simp add: render_ico_def)
qed

theorem render_ico_failure_writes_nothing_witness:
  "32 \<in> set FAVICON_ICO_SIZES \<and>
   files example_state (Path ''logo_thumbnail.svg'') = Some plain_svg \<and>
   convert failing_libs plain_svg 32 32 = None \<and>
   (\<exists>e s'. render_ico failing_libs (Path ''logo_thumbnail.svg'') (Path ''out/favicon.ico'')
              example_state = (Some e, s') \<and>
            files s' (Path ''out/favicon.ico'') = None \<and> Path ''out'' \<notin> dirs s')"
proof -
  have h1: "32 \<in> set FAVICON_ICO_SIZES"
    by (simp add: FAVICON_ICO_SIZES_def)
  have h2: "convert failing_libs plain_svg 32 32 = None"
    by (simp add: failing_libs_def)
  have h3: "files example_state (Path ''logo_thumbnail.svg'') = Some plain_svg"
    by (simp add: example_state_def Path_def splitroot_def)
  have before: "files example_state (Path ''out/favicon.ico'') = None \<and>
      Path ''out'' \<notin> dirs example_state"
    by (simp add: example_state_def Path_def splitroot_def)
  from h2 h3 have "\<forall>d png. files example_state (Path ''logo_thumbnail.svg'') = Some d
      \<longrightarrow> convert failing_libs d 32 32 = Some png \<longrightarrow> open_image failing_libs png = None"
    by simp
  from render_ico_failure_writes_nothing [OF h1 this, of "Path ''out/favicon.ico''"]
    before h1 h2 h3
  show ?thesis by auto
qed

lemma render_frames_ok:
  "render_frames L svg sizes images s = (Inr images', s') \<Longrightarrow>
     files s' = files s \<and> dirs s' = dirs s \<and>
     requests s' = requests s @ map (\<lambda>sz. Svg2png svg None sz sz) sizes \<and>
     (\<exists>frames. images' = images @ frames \<and>
        list_all2 (\<lambda>sz im. \<exists>d png. files s svg = Some d \<and> convert L d sz sz = Some png \<and>
                     open_image L png = Some im) sizes frames)"
proof (induction sizes arbitrary: images s)
  case Nil
  then show ?case by simp
next
  case (Cons sz rest)
  obtain r1 s1 where c: "svg2png L svg None sz sz s = (r1, s1)"
    by (cases "svg2png L svg None sz sz s")
  with Cons.prems obtain b where r1: "r1 = Inr b"
    by (cases r1) auto
  from svg2png_memory_ok [OF c [unfolded r1]]
  obtain d png where d: "files s svg = Some d" "convert L d sz sz = Some png" "b = Some png"
    by blast
  with Cons.prems c r1 obtain im where im: "open_image L png = Some im"
    by (cases "open_image L png") auto
  with Cons.prems c r1 d have "render_frames L svg rest (images @ [im]) s1 = (Inr images', s')"
    by simp
  from Cons.IH [OF this] obtain frames where ih:
    "files s' = files s1" "dirs s' = dirs s1"
    "requests s' = requests s1 @ map (\<lambda>sz. Svg2png svg None sz sz) rest"
    "images' = (images @ [im]) @ frames"
    "list_all2 (\<lambda>sz im. \<exists>d png. files s1 svg = Some d \<and> convert L d sz sz = Some png \<and>
                     open_image L png = Some im) rest frames"
    by blast
  note f1 = svg2png_memory [OF c]
  from ih(5) f1 have "list_all2 (\<lambda>sz im. \<exists>d png. files s svg = Some d \<and>
      convert L d sz sz = Some png \<and> open_image L png = Some im) (sz # rest) (im # frames)"
    using d im by simp
  moreover from ih(4) have "images' = images @ (im # frames)"
    by simp
  ultimately show ?case
    using ih(1-3) f1 by auto
qed

lemma Image_save_ok:
  assumes "Image_save L im out sizes others s = (None, s')"
  shows "\<exists>ico. write_ico L (ico_frames L im sizes others) = Some ico \<and>
           s' = s\<lparr>files := (files s)(out \<mapsto> ico)\<rparr> \<and> parent out \<in> dirs s"
  using assms
  by (auto simp: Image_save_def split: sum.splits option.splits dest!: write_file_Inr)

lemma Image_save_frame:
  assumes "Image_save L im out sizes others s = (r, s')"
  shows "dirs s' = dirs s \<and> requests s' = requests s \<and>
         (\<forall>p. p \<noteq> out \<longrightarrow> files s' p = files s p) \<and>
         (\<forall>p. files s p \<noteq> None \<longrightarrow> files s' p \<noteq> None)"
  using assms
  by (auto simp: Image_save_def split: sum.splits option.splits if_splits dest!: write_file_Inr)

lemma render_ico_ok:
  assumes "render_ico L svg_path out_path s = (None, s')"
  shows "\<exists>d png16 png32 png48 im16 im32 im48 ico.
           files s svg_path = Some d \<and>
           convert L d 16 16 = Some png16 \<and> open_image L png16 = Some im16 \<and>
           convert L d 32 32 = Some png32 \<and> open_image L png32 = Some im32 \<and>
           convert L d 48 48 = Some png48 \<and> open_image L png48 = Some im48 \<and>
           write_ico L (ico_frames L im16 [(16, 16), (32, 32), (48, 48)] [im32, im48])
             = Some ico \<and>
           files s' = (files s)(out_path \<mapsto> ico) \<and>
           requests s' = requests s @
             [Svg2png svg_path None 16 16, Svg2png svg_path None 32 32,
              Svg2png svg_path None 48 48]"
proof -
  obtain r1 s1 where fr: "render_frames L svg_path [16, 32, 48] [] s = (r1, s1)"
    by (cases "render_frames L svg_path [16, 32, 48] [] s")
  with assms obtain images where r1: "r1 = Inr images"
    by (cases r1) (auto simp: render_ico_def FAVICON_ICO_SIZES_def)
  from render_frames_ok [OF fr [unfolded r1]]
  have f1: "files s1 = files s"
    and q1: "requests s1 = requests s @
      [Svg2png svg_path None 16 16, Svg2png svg_path None 32 32, Svg2png svg_path None 48 48]"
    and fs: "list_all2 (\<lambda>sz im. \<exists>d png. files s svg_path = Some d \<and>
      convert L d sz sz = Some png \<and> open_image L png = Some im) [16, 32, 48] images"
    by auto
  from fs obtain im16 im32 im48 where images: "images = [im16, im32, im48]"
    by (auto simp: list_all2_Cons1)
  from fs images obtain d png16 png32 png48 where a:
    "files s svg_path = Some d"
    "convert L d 16 16 = Some png16" "open_image L png16 = Some im16"
    "convert L d 32 32 = Some png32" "open_image L png32 = Some im32"
    "convert L d 48 48 = Some png48" "open_image L png48 = Some im48"
    by auto
  obtain r2 s2 where mk: "mkdir_parents (parent out_path) s1 = (r2, s2)"
    by (cases "mkdir_parents (parent out_path) s1")
  note f2 = mkdir_parents_frame [OF mk]
  from assms fr r1 mk have r2: "r2 = None"
    by (cases r2) (auto simp: render_ico_def FAVICON_ICO_SIZES_def)
  from assms fr r1 mk r2 images
  have "Image_save L im16 out_path [(16, 16), (32, 32), (48, 48)] [im32, im48] s2 = (None, s')"
    by (simp add: render_ico_def FAVICON_ICO_SIZES_def)
  from Image_save_ok [OF this]
  obtain ico where ico:
    "write_ico L (ico_frames L im16 [(16, 16), (32, 32), (48, 48)] [im32, im48]) = Some ico"
    "s' = s2\<lparr>files := (files s2)(out_path \<mapsto> ico)\<rparr>"
    by blast
  from ico f2 f1 q1 have "files s' = (files s)(out_path \<mapsto> ico)"
    and "requests s' = requests s @
             [Svg2png svg_path None 16 16, Svg2png svg_path None 32 32,
              Svg2png svg_path None 48 48]"
    by simp_all
  with a ico show ?thesis
    by blast
qed

text \<open>
  With the 16 pixel image as the image being saved, the sizes 32 and 48 are larger than
  it and are ignored, whatever images are appended.
\<close>

lemma ico_frames_smallest_first:
  assumes "image_size L im16 = (16, 16)"
  shows "ico_frames L im16 [(16, 16), (32, 32), (48, 48)] others = [im16]"
  using assms by (simp add: ico_frames_def)

text \<open>
  C5. The claim: \<open>render_ico\<close> renders the frames for 16, 32 and 48 pixels in memory and
  writes one container that embeds all three resolutions, the 16 pixel frame being the
  primary image. The code: it does make the three conversions in memory, in this order,
  and it changes the destination only; but it saves the 16 pixel frame, the smallest, as
  the image, so the writer ignores the sizes 32 and 48 and the file holds the 16 pixel
  frame alone. This holds for every library that renders the 16 pixel frame at 16 by 16
  pixels.
\<close>

theorem render_ico_embeds_one_frame:
  assumes "render_ico L svg_path out_path s = (None, s')"
    and "\<forall>d png im. files s svg_path = Some d \<longrightarrow> convert L d 16 16 = Some png \<longrightarrow>
           open_image L png = Some im \<longrightarrow> image_size L im = (16, 16)"
  shows "\<exists>d png16 im16 ico.
           files s svg_path = Some d \<and>
           convert L d 16 16 = Some png16 \<and> open_image L png16 = Some im16 \<and>
           write_ico L [im16] = Some ico \<and>
           files s' = (files s)(out_path \<mapsto> ico) \<and>
           requests s' = requests s @
             [Svg2png svg_path None 16 16, Svg2png svg_path None 32 32,
              Svg2png svg_path None 48 48]"
proof -
  from render_ico_ok [OF assms(1)]
  obtain d png16 im16 im32 im48 ico where a:
    "files s svg_path = Some d" "convert L d 16 16 = Some png16" "open_image L png16 = Some im16"
    "write_ico L (ico_frames L im16 [(16, 16), (32, 32), (48, 48)] [im32, im48]) = Some ico"
    "files s' = (files s)(out_path \<mapsto> ico)"
    "requests s' = requests s @
       [Svg2png svg_path None 16 16, Svg2png svg_path None 32 32, Svg2png svg_path None 48 48]"
    by blast
  from assms(2) a(1-3) have "image_size L im16 = (16, 16)"
    by blast
  from a(4) have "write_ico L [im16] = Some ico"
    unfolding ico_frames_smallest_first [OF \<open>image_size L im16 = (16, 16)\<close>] .
  with a show ?thesis
    by blast
qed

theorem render_ico_embeds_one_frame_witness:
  "fst (render_ico example_libs (Path ''logo_thumbnail.svg'') (Path ''favicon.ico'') example_state)
     = None \<and>
   image_size example_libs ''PNG 16x16'' = (16, 16) \<and>
   image_size example_libs ''PNG 32x32'' = (32, 32) \<and>
   image_size example_libs ''PNG 48x48'' = (48, 48) \<and>
   ico_frames example_libs ''PNG 16x16'' [(16, 16), (32, 32), (48, 48)]
       [''PNG 32x32'', ''PNG 48x48''] = [''PNG 16x16''] \<and>
   files (snd (render_ico example_libs (Path ''logo_thumbnail.svg'') (Path ''favicon.ico'')
                 example_state)) (Path ''favicon.ico'')
     = Some ''ICO PNG 16x16'' \<and>
   requests (snd (render_ico example_libs (Path ''logo_thumbnail.svg'') (Path ''favicon.ico'')
                    example_state))
     = [Svg2png (Path ''logo_thumbnail.svg'') None 16 16,
        Svg2png (Path ''logo_thumbnail.svg'') None 32 32,
        Svg2png (Path ''logo_thumbnail.svg'') None 48 48]"
proof -
  let ?r = "render_ico example_libs (Path ''logo_thumbnail.svg'') (Path ''favicon.ico'')
              example_state"
  have ok: "fst ?r = None"
    by code_simp
  then have run: "?r = (None, snd ?r)"
    by (simp add: prod_eq_iff)
  have n: "str_int 16 = ''16''"
    by code_simp
  have sz: "image_size example_libs ''PNG 16x16'' = (16, 16)"
    "image_size example_libs ''PNG 32x32'' = (32, 32)"
    "image_size example_libs ''PNG 48x48'' = (48, 48)"
    by (simp_all add: example_libs_def)
  have hyp: "\<forall>d png im. files example_state (Path ''logo_thumbnail.svg'') = Some d \<longrightarrow>
      convert example_libs d 16 16 = Some png \<longrightarrow> open_image example_libs png = Some im \<longrightarrow>
      image_size example_libs im = (16, 16)"
    by (auto simp: example_libs_def n)
  from render_ico_embeds_one_frame [OF run hyp]
  obtain d png16 im16 ico where
    "convert example_libs d 16 16 = Some png16" "open_image example_libs png16 = Some im16"
    "write_ico example_libs [im16] = Some ico"
    "files (snd ?r) = (files example_state)(Path ''favicon.ico'' \<mapsto> ico)"
    "requests (snd ?r) = requests example_state @
       [Svg2png (Path ''logo_thumbnail.svg'') None 16 16,
        Svg2png (Path ''logo_thumbnail.svg'') None 32 32,
        Svg2png (Path ''logo_thumbnail.svg'') None 48 48]"
    by blast
  then have "files (snd ?r) (Path ''favicon.ico'') = Some ''ICO PNG 16x16''"
    and "requests (snd ?r) =
       [Svg2png (Path ''logo_thumbnail.svg'') None 16 16,
        Svg2png (Path ''logo_thumbnail.svg'') None 32 32,
        Svg2png (Path ''logo_thumbnail.svg'') None 48 48]"
    by (auto simp: example_libs_def example_state_def n)
  moreover have "ico_frames example_libs ''PNG 16x16'' [(16, 16), (32, 32), (48, 48)]
       [''PNG 32x32'', ''PNG 48x48''] = [''PNG 16x16'']"
    by (rule ico_frames_smallest_first) (rule sz(1))
  ultimately show ?thesis
    using ok sz by simp
qed

subsection \<open>Resolving the sources\<close>

text \<open>
  C9. \<open>resolve_svg\<close> returns the explicit value as a path when one is given and is not
  empty, whatever exists; otherwise the conventional file name joined to the directory of
  the script when that path exists; otherwise the fallback path, whatever exists. At the
  three calls in \<open>main\<close> the fallback is the directory \<^verbatim>\<open>brand-assets\<close> joined with
  the conventional file name.
\<close>

theorem resolve_svg_order:
  "(arg_value = Some v \<and> v \<noteq> [] \<longrightarrow>
      resolve_svg script_dir s arg_value script_name fallback = Path v) \<and>
   ((arg_value = None \<or> arg_value = Some []) \<and> path_exists s (joinp script_dir script_name) \<longrightarrow>
      resolve_svg script_dir s arg_value script_name fallback = joinp script_dir script_name) \<and>
   ((arg_value = None \<or> arg_value = Some []) \<and> \<not> path_exists s (joinp script_dir script_name) \<longrightarrow>
      resolve_svg script_dir s arg_value script_name fallback = Path fallback) \<and>
   Path ''brand-assets/logo_thumbnail.svg'' = joinp (Path ''brand-assets'') ''logo_thumbnail.svg'' \<and>
   Path ''brand-assets/logo.svg'' = joinp (Path ''brand-assets'') ''logo.svg'' \<and>
   Path ''brand-assets/logo_dark.svg'' = joinp (Path ''brand-assets'') ''logo_dark.svg''"
  by (auto simp: resolve_svg_def Path_def joinp_def splitroot_def)

theorem resolve_svg_order_witness:
  "resolve_svg (PosixPath ''/'' [''repo'']) example_state (Some ''missing.svg'')
       ''logo.svg'' ''brand-assets/logo.svg'' = PosixPath [] [''missing.svg''] \<and>
   \<not> path_exists example_state (PosixPath [] [''missing.svg'']) \<and>
   path_exists example_state (joinp (PosixPath [] []) ''logo_thumbnail.svg'') \<and>
   resolve_svg (PosixPath [] []) example_state None
       ''logo_thumbnail.svg'' ''brand-assets/logo_thumbnail.svg'' = PosixPath [] [''logo_thumbnail.svg''] \<and>
   \<not> path_exists example_state (joinp (PosixPath ''/'' [''repo'']) ''logo_thumbnail.svg'') \<and>
   \<not> path_exists example_state (PosixPath [] [''brand-assets'', ''logo_thumbnail.svg'']) \<and>
   resolve_svg (PosixPath ''/'' [''repo'']) example_state (Some [])
       ''logo_thumbnail.svg'' ''brand-assets/logo_thumbnail.svg'' =
     PosixPath [] [''brand-assets'', ''logo_thumbnail.svg'']"
proof -
  have p1: "Path ''missing.svg'' = PosixPath [] [''missing.svg'']"
    and p2: "joinp (PosixPath [] []) ''logo_thumbnail.svg'' = PosixPath [] [''logo_thumbnail.svg'']"
    and p3: "Path ''brand-assets/logo_thumbnail.svg'' = PosixPath [] [''brand-assets'', ''logo_thumbnail.svg'']"
    and p4: "joinp (PosixPath ''/'' [''repo'']) ''logo_thumbnail.svg'' = PosixPath ''/'' [''repo'', ''logo_thumbnail.svg'']"
    by (simp_all add: Path_def joinp_def splitroot_def)
  have e1: "\<not> path_exists example_state (PosixPath [] [''missing.svg''])"
    and e2: "path_exists example_state (PosixPath [] [''logo_thumbnail.svg''])"
    and e3: "\<not> path_exists example_state (PosixPath ''/'' [''repo'', ''logo_thumbnail.svg''])"
    and e4: "\<not> path_exists example_state (PosixPath [] [''brand-assets'', ''logo_thumbnail.svg''])"
    by (simp_all add: path_exists_def example_state_def)
  from resolve_svg_order [of "Some ''missing.svg''" "''missing.svg''" "PosixPath ''/'' [''repo'']"
      example_state "''logo.svg''" "''brand-assets/logo.svg''"]
  have c1: "resolve_svg (PosixPath ''/'' [''repo'']) example_state (Some ''missing.svg'')
       ''logo.svg'' ''brand-assets/logo.svg'' = PosixPath [] [''missing.svg'']"
    using p1 by simp
  from resolve_svg_order [of None v "PosixPath [] []"
      example_state "''logo_thumbnail.svg''" "''brand-assets/logo_thumbnail.svg''" for v] p2 e2
  have c2: "resolve_svg (PosixPath [] []) example_state None
       ''logo_thumbnail.svg'' ''brand-assets/logo_thumbnail.svg'' = PosixPath [] [''logo_thumbnail.svg'']"
    by simp
  from resolve_svg_order [of "Some []" v "PosixPath ''/'' [''repo'']"
      example_state "''logo_thumbnail.svg''" "''brand-assets/logo_thumbnail.svg''" for v] p3 p4 e3
  have c3: "resolve_svg (PosixPath ''/'' [''repo'']) example_state (Some [])
       ''logo_thumbnail.svg'' ''brand-assets/logo_thumbnail.svg'' =
     PosixPath [] [''brand-assets'', ''logo_thumbnail.svg'']"
    by simp
  from c1 c2 c3 e1 e2 e3 e4 p2 p4 show ?thesis by simp
qed

text \<open>
  C3. When the resolved avatar path does not exist, \<open>main\<close> ends with exit status 1,
  has generated nothing and leaves the state as it found it: no file, no directory and no
  conversion request.
\<close>

theorem main_missing_avatar:
  assumes "\<not> path_exists s
             (resolve_svg script_dir s (avatar_svg a)
                ''logo_thumbnail.svg'' ''brand-assets/logo_thumbnail.svg'')"
  shows "main L script_dir a s = (Exit 1, [], s)"
  using assms by (simp add: main_def)

theorem main_missing_avatar_witness:
  "resolve_svg (PosixPath ''/'' [''repo'']) example_state (Some ''missing.svg'')
       ''logo_thumbnail.svg'' ''brand-assets/logo_thumbnail.svg'' = PosixPath [] [''missing.svg''] \<and>
   \<not> path_exists example_state (PosixPath [] [''missing.svg'']) \<and>
   main example_libs (PosixPath ''/'' [''repo'']) (example_args\<lparr>avatar_svg := Some ''missing.svg''\<rparr>)
     example_state = (Exit 1, [], example_state) \<and>
   exit_status (Exit 1) = 1"
proof -
  have r: "resolve_svg (PosixPath ''/'' [''repo'']) example_state (Some ''missing.svg'')
       ''logo_thumbnail.svg'' ''brand-assets/logo_thumbnail.svg'' = PosixPath [] [''missing.svg'']"
    by (simp add: resolve_svg_def Path_def splitroot_def)
  have e: "\<not> path_exists example_state (PosixPath [] [''missing.svg''])"
    by (simp add: path_exists_def example_state_def)
  from main_missing_avatar [of example_state "PosixPath ''/'' [''repo'']"
      "example_args\<lparr>avatar_svg := Some ''missing.svg''\<rparr>" example_libs] r e
  show ?thesis by (simp add: example_args_def)
qed

subsection \<open>The favicon rewriter\<close>

lemma tolower_backslash: "tolower c = tolower backslash \<Longrightarrow> c = backslash"
  by (auto simp: tolower_def backslash_def split: option.splits if_splits)

lemma match_literal_mem:
  "match_literal True lit s \<Longrightarrow> p \<in> set lit \<Longrightarrow>
     (\<And>c. tolower c = tolower p \<Longrightarrow> c = p) \<Longrightarrow> p \<in> set s"
  by (induction True lit s rule: match_literal.induct) auto

lemma match_here_svg_backslash:
  "match_here True svg_literal stop s = Some n \<Longrightarrow> backslash \<in> set s"
  by (auto simp: match_here_def split: if_splits
      intro!: match_literal_mem [of svg_literal s backslash] tolower_backslash)
     (simp add: svg_literal_def)

lemma re_search_from_svg_backslash:
  "backslash \<notin> set s \<Longrightarrow> re_search_from i True svg_literal stop s = None"
proof (induction s arbitrary: i)
  case Nil
  then show ?case by simp
next
  case (Cons c cs)
  have "match_here True svg_literal stop (c # cs) = None"
  proof (cases "match_here True svg_literal stop (c # cs)")
    case (Some n)
    from match_here_svg_backslash [OF this] Cons.prems show ?thesis by simp
  qed simp
  with Cons show ?case by simp
qed

lemma write_favicon_svg_fallback_copy:
  assumes "files s svg_path = Some content"
    and "re_search True svg_literal (CHR ''>'') content = None"
    and "parent out_path \<in> dirs s" and "out_path \<notin> dirs s" and "svg_path \<noteq> out_path"
  shows "write_favicon_svg svg_path out_path sz s =
           (None, s\<lparr>files := (files s)(out_path \<mapsto> content)\<rparr>)"
  using assms
  by (simp add: write_favicon_svg_def read_file_def copyfile_def write_file_def)

lemma write_favicon_svg_fallback_dirs:
  assumes "files s svg_path = Some content"
    and "re_search True svg_literal (CHR ''>'') content = None"
    and "write_favicon_svg svg_path out_path sz s = (r, s')"
  shows "dirs s' = dirs s"
  using assms
  by (auto simp: write_favicon_svg_def read_file_def copyfile_def write_file_def
      split: if_splits)

lemma write_favicon_svg_fallback_missing_parent:
  assumes "files s svg_path = Some content"
    and "re_search True svg_literal (CHR ''>'') content = None"
    and "parent out_path \<notin> dirs s"
  shows "\<exists>e. write_favicon_svg svg_path out_path sz s = (Some e, s)"
  using assms
  by (auto simp: write_favicon_svg_def read_file_def copyfile_def write_file_def
      split: if_splits)

lemma write_favicon_svg_no_backslash:
  assumes "files s svg_path = Some content" and "backslash \<notin> set content"
    and "parent out_path \<in> dirs s" and "out_path \<notin> dirs s" and "svg_path \<noteq> out_path"
  shows "write_favicon_svg svg_path out_path sz s =
           (None, s\<lparr>files := (files s)(out_path \<mapsto> content)\<rparr>)"
  using assms write_favicon_svg_fallback_copy re_search_from_svg_backslash
  by (simp add: re_search_def)

lemma write_favicon_svg_rewrite_mkdir:
  assumes "files s svg_path = Some content"
    and "re_search True svg_literal (CHR ''>'') content = Some m"
    and "write_favicon_svg svg_path out_path sz s = (None, s')"
  shows "parent out_path \<in> dirs s'"
proof -
  obtain r1 s1 where mk: "mkdir_parents (parent out_path) s = (r1, s1)"
    by (cases "mkdir_parents (parent out_path) s")
  with assms have "r1 = None"
    by (cases r1; cases m) (auto simp: write_favicon_svg_def read_file_def Let_def)
  with mk have "parent out_path \<in> dirs s1"
    by (simp add: mkdir_parents_success)
  with assms mk \<open>r1 = None\<close> show ?thesis
    by (cases m) (auto simp: write_favicon_svg_def read_file_def Let_def
        split: sum.splits dest!: write_file_Inr)
qed

text \<open>
  C1. The claim: a root tag that declares a width and a height comes out declaring
  \<^verbatim>\<open>width="48" height="48"\<close>. The code: the root tag of an ordinary document has no
  backslash, so the first pattern does not match it, and the document is copied as it is,
  still declaring 200.
\<close>

theorem declared_size_is_kept:
  \<open>files docs_state (Path ''sized.svg'') = Some ''<svg width="200" height="200"></svg>'' \<and>
   re_search True svg_literal (CHR ''>'') ''<svg width="200" height="200"></svg>'' = None \<and>
   fst (write_favicon_svg (Path ''sized.svg'') (Path ''favicon.svg'') FAVICON_SVG_SIZE docs_state)
     = None \<and>
   files (snd (write_favicon_svg (Path ''sized.svg'') (Path ''favicon.svg'') FAVICON_SVG_SIZE
                 docs_state)) (Path ''favicon.svg'')
     = Some ''<svg width="200" height="200"></svg>''\<close>
  by code_simp

text \<open>
  C2. The claim: a root tag without width and height gets \<^verbatim>\<open>width="48"\<close> and
  \<^verbatim>\<open>height="48"\<close> appended. The code: the tag of the specification's own example is not
  matched either, and the copy has no width and no height.
\<close>

theorem missing_size_is_not_appended:
  \<open>files docs_state (Path ''logo_thumbnail.svg'') = Some ''<svg viewBox="0 0 100 100"></svg>'' \<and>
   re_search True svg_literal (CHR ''>'') ''<svg viewBox="0 0 100 100"></svg>'' = None \<and>
   fst (write_favicon_svg (Path ''logo_thumbnail.svg'') (Path ''favicon.svg'') 48 docs_state)
     = None \<and>
   files (snd (write_favicon_svg (Path ''logo_thumbnail.svg'') (Path ''favicon.svg'') 48
                 docs_state)) (Path ''favicon.svg'')
     = Some ''<svg viewBox="0 0 100 100"></svg>''\<close>
  by code_simp

text \<open>
  Where the tag does carry the backslash, the rewrite runs, but the attribute patterns
  ask for a backslash of their own: a declared width is not replaced, a second one is
  appended.
\<close>

lemma escaped_tag_gets_second_width:
  \<open>fst (write_favicon_svg (Path ''escaped.svg'') (Path ''favicon.svg'') 48 docs_state) = None \<and>
   files (snd (write_favicon_svg (Path ''escaped.svg'') (Path ''favicon.svg'') 48 docs_state))
       (Path ''favicon.svg'')
     = Some (''<svg'' @ [backslash] @ ''b width="200" width="48" height="48"/>'')\<close>
  by code_simp

text \<open>
  C7. The claim: a document without the root tag is copied to the destination and the call
  does not fail. The code: the fallback copies without creating the destination's
  directory, so the call raises FileNotFoundError when that directory is missing, and
  nothing is copied.
\<close>

theorem fallback_copy_raises_without_directory:
  \<open>files docs_state (Path ''notes.xml'') = Some ''<root/>'' \<and>
   re_search True svg_literal (CHR ''>'') ''<root/>'' = None \<and>
   fst (write_favicon_svg (Path ''notes.xml'') (Path ''out/favicon.svg'') 48 docs_state)
     = Some FileNotFoundError \<and>
   files (snd (write_favicon_svg (Path ''notes.xml'') (Path ''out/favicon.svg'') 48 docs_state))
       (Path ''out/favicon.svg'')
     = None\<close>
  by code_simp

text \<open>
  C8. The claim: the destination's parent directory is ensured in both branches. The code:
  the rewrite branch creates it (third and fourth conjunct), the fallback branch returns
  before the call of \<^verbatim>\<open>mkdir\<close> and leaves it missing (second conjunct).
\<close>

theorem fallback_leaves_directory_missing:
  \<open>parent (Path ''out/favicon.svg'') = Path ''out'' \<and>
   Path ''out'' \<notin> dirs (snd (write_favicon_svg (Path ''notes.xml'') (Path ''out/favicon.svg'')
                                48 docs_state)) \<and>
   fst (write_favicon_svg (Path ''escaped.svg'') (Path ''out/favicon.svg'') 48 docs_state)
     = None \<and>
   Path ''out'' \<in> dirs (snd (write_favicon_svg (Path ''escaped.svg'') (Path ''out/favicon.svg'')
                              48 docs_state))\<close>
  by code_simp

subsection \<open>The run as a whole\<close>

lemma render_sizes_frame:
  "render_sizes L avatar out prefix sizes g s = (r, g', s') \<Longrightarrow>
     dirs s \<subseteq> dirs s' \<and>
     (\<forall>p. files s p \<noteq> None \<longrightarrow> files s' p \<noteq> None) \<and>
     (\<forall>p. p \<notin> (\<lambda>sz. joinp out (filename prefix sz)) ` set sizes \<longrightarrow> files s' p = files s p)"
proof (induction sizes arbitrary: g s)
  case Nil
  then show ?case by simp
next
  case (Cons sz sizes)
  let ?p = "joinp out (filename prefix sz)"
  obtain r1 s1 where c: "render_png L avatar ?p sz s = (r1, s1)"
    by (cases "render_png L avatar ?p sz s")
  note f1 = render_png_frame [OF c]
  show ?case
  proof (cases r1)
    case (Some e)
    with Cons.prems c have "s' = s1" by simp
    with f1 show ?thesis by auto
  next
    case None
    with Cons.prems c have "render_sizes L avatar out prefix sizes (g @ [?p]) s1 = (r, g', s')"
      by simp
    from Cons.IH [OF this] f1 show ?thesis
      by (auto simp: subset_iff)
  qed
qed

lemma render_sizes_ok:
  "render_sizes L avatar out prefix sizes g s = (None, g', s') \<Longrightarrow>
     g' = g @ map (\<lambda>sz. joinp out (filename prefix sz)) sizes \<and>
     requests s' = requests s @
       map (\<lambda>sz. Svg2png avatar (Some (joinp out (filename prefix sz))) sz sz) sizes \<and>
     (\<forall>sz \<in> set sizes. files s' (joinp out (filename prefix sz)) \<noteq> None)"
proof (induction sizes arbitrary: g s)
  case Nil
  then show ?case by simp
next
  case (Cons sz sizes)
  let ?p = "joinp out (filename prefix sz)"
  obtain r1 s1 where c: "render_png L avatar ?p sz s = (r1, s1)"
    by (cases "render_png L avatar ?p sz s")
  with Cons.prems have r1: "r1 = None"
    by (cases r1) auto
  with Cons.prems c have rest: "render_sizes L avatar out prefix sizes (g @ [?p]) s1 = (None, g', s')"
    by simp
  note ih = Cons.IH [OF rest]
  from render_png_ok(2) [OF c [unfolded r1]] have "files s1 ?p \<noteq> None"
    by auto
  with render_sizes_frame [OF rest] have "files s' ?p \<noteq> None"
    by blast
  with ih render_png_ok(1) [OF c [unfolded r1]] show ?case
    by simp
qed

lemma planned_pngs_Cons:
  "planned_pngs ((prefix, sizes) # specs) =
     map (\<lambda>sz. (filename prefix sz, sz)) sizes @ planned_pngs specs"
  by (simp add: planned_pngs_def)

lemma planned_paths_Cons:
  "(\<lambda>(name, sz). joinp out name) ` set (planned_pngs ((prefix, sizes) # specs)) =
     (\<lambda>sz. joinp out (filename prefix sz)) ` set sizes \<union>
     (\<lambda>(name, sz). joinp out name) ` set (planned_pngs specs)"
  by (simp add: planned_pngs_Cons image_Un image_image)

lemma render_specs_frame:
  "render_specs L avatar out specs g s = (r, g', s') \<Longrightarrow>
     dirs s \<subseteq> dirs s' \<and>
     (\<forall>p. files s p \<noteq> None \<longrightarrow> files s' p \<noteq> None) \<and>
     (\<forall>p. p \<notin> (\<lambda>(name, sz). joinp out name) ` set (planned_pngs specs)
        \<longrightarrow> files s' p = files s p)"
proof (induction specs arbitrary: g s)
  case Nil
  then show ?case by simp
next
  case (Cons spec specs)
  obtain prefix sizes where spec: "spec = (prefix, sizes)"
    by (cases spec)
  obtain r1 g1 s1 where c: "render_sizes L avatar out prefix sizes g s = (r1, g1, s1)"
    by (cases "render_sizes L avatar out prefix sizes g s")
  from render_sizes_frame [OF c]
  have d1: "dirs s \<subseteq> dirs s1"
    and m1: "\<And>p. files s p \<noteq> None \<Longrightarrow> files s1 p \<noteq> None"
    and k1: "\<And>p. p \<notin> (\<lambda>sz. joinp out (filename prefix sz)) ` set sizes \<Longrightarrow>
               files s1 p = files s p"
    by blast+
  have "dirs s1 \<subseteq> dirs s' \<and>
     (\<forall>p. files s1 p \<noteq> None \<longrightarrow> files s' p \<noteq> None) \<and>
     (\<forall>p. p \<notin> (\<lambda>(name, sz). joinp out name) ` set (planned_pngs specs)
        \<longrightarrow> files s' p = files s1 p)"
  proof (cases r1)
    case (Some e)
    with Cons.prems c spec have "s' = s1" by simp
    then show ?thesis by simp
  next
    case None
    with Cons.prems c spec have "render_specs L avatar out specs g1 s1 = (r, g', s')"
      by simp
    from Cons.IH [OF this] show ?thesis .
  qed
  then have d2: "dirs s1 \<subseteq> dirs s'"
    and m2: "\<And>p. files s1 p \<noteq> None \<Longrightarrow> files s' p \<noteq> None"
    and k2: "\<And>p. p \<notin> (\<lambda>(name, sz). joinp out name) ` set (planned_pngs specs) \<Longrightarrow>
               files s' p = files s1 p"
    by blast+
  have "dirs s \<subseteq> dirs s'"
    using d1 d2 by (rule subset_trans)
  moreover have "files s' p \<noteq> None" if "files s p \<noteq> None" for p
    using that by (rule m2 [OF m1])
  moreover have "files s' p = files s p"
    if "p \<notin> (\<lambda>(name, sz). joinp out name) ` set (planned_pngs (spec # specs))" for p
  proof -
    from that have a: "p \<notin> (\<lambda>sz. joinp out (filename prefix sz)) ` set sizes"
      and b: "p \<notin> (\<lambda>(name, sz). joinp out name) ` set (planned_pngs specs)"
      unfolding spec planned_paths_Cons by simp_all
    from k2 [OF b] k1 [OF a] show ?thesis by simp
  qed
  ultimately show ?case by blast
qed

lemma render_specs_ok:
  "render_specs L avatar out specs g s = (None, g', s') \<Longrightarrow>
     g' = g @ map (\<lambda>(name, sz). joinp out name) (planned_pngs specs) \<and>
     requests s' = requests s @
       map (\<lambda>(name, sz). Svg2png avatar (Some (joinp out name)) sz sz) (planned_pngs specs) \<and>
     (\<forall>(name, sz) \<in> set (planned_pngs specs). files s' (joinp out name) \<noteq> None)"
proof (induction specs arbitrary: g s)
  case Nil
  then show ?case by (simp add: planned_pngs_def)
next
  case (Cons spec specs)
  obtain prefix sizes where spec: "spec = (prefix, sizes)"
    by (cases spec)
  obtain r1 g1 s1 where c: "render_sizes L avatar out prefix sizes g s = (r1, g1, s1)"
    by (cases "render_sizes L avatar out prefix sizes g s")
  with Cons.prems spec have r1: "r1 = None"
    by (cases r1) auto
  with Cons.prems c spec have rest: "render_specs L avatar out specs g1 s1 = (None, g', s')"
    by simp
  from Cons.IH [OF rest]
  have g': "g' = g1 @ map (\<lambda>(name, sz). joinp out name) (planned_pngs specs)"
    and q': "requests s' = requests s1 @
       map (\<lambda>(name, sz). Svg2png avatar (Some (joinp out name)) sz sz) (planned_pngs specs)"
    and e': "\<forall>(name, sz) \<in> set (planned_pngs specs). files s' (joinp out name) \<noteq> None"
    by blast+
  from render_sizes_ok [OF c [unfolded r1]]
  have g1: "g1 = g @ map (\<lambda>sz. joinp out (filename prefix sz)) sizes"
    and q1: "requests s1 = requests s @
       map (\<lambda>sz. Svg2png avatar (Some (joinp out (filename prefix sz))) sz sz) sizes"
    and e1: "\<forall>sz \<in> set sizes. files s1 (joinp out (filename prefix sz)) \<noteq> None"
    by blast+
  from render_specs_frame [OF rest]
  have m: "\<And>p. files s1 p \<noteq> None \<Longrightarrow> files s' p \<noteq> None"
    by blast
  from e1 m have e1': "\<forall>sz \<in> set sizes. files s' (joinp out (filename prefix sz)) \<noteq> None"
    by blast
  have "g' = g @ map (\<lambda>(name, sz). joinp out name) (planned_pngs (spec # specs))"
    by (simp add: g' g1 spec planned_pngs_Cons comp_def)
  moreover have "requests s' = requests s @
       map (\<lambda>(name, sz). Svg2png avatar (Some (joinp out name)) sz sz)
         (planned_pngs (spec # specs))"
    by (simp add: q' q1 spec planned_pngs_Cons comp_def)
  moreover have "\<forall>(name, sz) \<in> set (planned_pngs (spec # specs)).
       files s' (joinp out name) \<noteq> None"
    using e' e1' by (simp add: spec planned_pngs_Cons ball_Un)
  ultimately show ?case by blast
qed

lemma split_slash_plain: "CHR ''/'' \<notin> set name \<Longrightarrow> split_slash name = [name]"
  by (induction name) auto

lemma Path_plain:
  "CHR ''/'' \<notin> set name \<Longrightarrow> name \<noteq> [] \<Longrightarrow> name \<noteq> ''.'' \<Longrightarrow> Path name = PosixPath [] [name]"
  by (cases name) (auto simp: Path_def splitroot_def split_slash_plain)

lemma joinp_plain:
  "CHR ''/'' \<notin> set name \<Longrightarrow> name \<noteq> [] \<Longrightarrow> name \<noteq> ''.'' \<Longrightarrow>
     joinp out name = PosixPath (anchor out) (parts out @ [name])"
  by (simp add: joinp_def Path_plain)

lemma parent_joinp_plain:
  "CHR ''/'' \<notin> set name \<Longrightarrow> name \<noteq> [] \<Longrightarrow> name \<noteq> ''.'' \<Longrightarrow> parent (joinp out name) = out"
  by (simp add: joinp_plain parent_def)

lemma write_favicon_svg_frame:
  assumes "write_favicon_svg svg out sz s = (r, s')"
  shows "requests s' = requests s \<and> dirs s \<subseteq> dirs s' \<and>
         (\<forall>p. p \<noteq> out \<longrightarrow> files s' p = files s p) \<and>
         (\<forall>p. files s p \<noteq> None \<longrightarrow> files s' p \<noteq> None) \<and>
         (parent out \<in> dirs s \<longrightarrow> dirs s' = dirs s)"
proof (cases "read_file svg s")
  case (Inl e)
  with assms show ?thesis by (simp add: write_favicon_svg_def)
next
  case (Inr content)
  show ?thesis
  proof (cases "re_search True svg_literal (CHR ''>'') content")
    case None
    with assms Inr show ?thesis
      by (auto simp: write_favicon_svg_def copyfile_def write_file_def
          split: if_splits sum.splits)
  next
    case (Some m)
    obtain start end' where m: "m = (start, end')"
      by (cases m)
    obtain r1 s1 where mk: "mkdir_parents (parent out) s = (r1, s1)"
      by (cases "mkdir_parents (parent out) s")
    note f1 = mkdir_parents_frame [OF mk]
    have noop: "s1 = s" if "parent out \<in> dirs s"
      using mk mkdir_parents_noop [OF that] by simp
    from assms Inr Some m mk have "s' = s1 \<or> (\<exists>d. s' = s1\<lparr>files := (files s1)(out \<mapsto> d)\<rparr>)"
      by (cases r1) (auto simp: write_favicon_svg_def Let_def split: sum.splits dest!: write_file_Inr)
    with f1 noop show ?thesis
      by auto
  qed
qed

lemma render_ico_frame:
  assumes "render_ico L svg out s = (r, s')"
  shows "dirs s \<subseteq> dirs s' \<and> (\<forall>p. p \<noteq> out \<longrightarrow> files s' p = files s p) \<and>
         (\<forall>p. files s p \<noteq> None \<longrightarrow> files s' p \<noteq> None)"
proof -
  obtain r1 s1 where fr: "render_frames L svg FAVICON_ICO_SIZES [] s = (r1, s1)"
    by (cases "render_frames L svg FAVICON_ICO_SIZES [] s")
  note f1 = render_frames_frame [OF fr]
  show ?thesis
  proof (cases r1)
    case (Inl e)
    with assms fr f1 show ?thesis by (simp add: render_ico_def)
  next
    case (Inr images)
    obtain r2 s2 where mk: "mkdir_parents (parent out) s1 = (r2, s2)"
      by (cases "mkdir_parents (parent out) s1")
    note f2 = mkdir_parents_frame [OF mk]
    show ?thesis
    proof (cases r2)
      case (Some e)
      with assms fr Inr mk f1 f2 show ?thesis by (simp add: render_ico_def)
    next
      case None
      show ?thesis
      proof (cases images)
        case Nil
        with assms fr Inr mk None f1 f2 show ?thesis by (simp add: render_ico_def)
      next
        case (Cons im others)
        with assms fr Inr mk None
        have "Image_save L im out (map (\<lambda>size'. (size', size')) FAVICON_ICO_SIZES) others s2 = (r, s')"
          by (simp add: render_ico_def)
        from Image_save_frame [OF this] f1 f2 show ?thesis by simp
      qed
    qed
  qed
qed

lemma render_ico_ok_dir:
  assumes "render_ico L svg out s = (None, s')"
  shows "parent out \<in> dirs s'"
proof -
  obtain r1 s1 where fr: "render_frames L svg FAVICON_ICO_SIZES [] s = (r1, s1)"
    by (cases "render_frames L svg FAVICON_ICO_SIZES [] s")
  with assms obtain images where r1: "r1 = Inr images"
    by (cases r1) (auto simp: render_ico_def)
  obtain r2 s2 where mk: "mkdir_parents (parent out) s1 = (r2, s2)"
    by (cases "mkdir_parents (parent out) s1")
  with assms fr r1 have r2: "r2 = None"
    by (cases r2) (auto simp: render_ico_def)
  from assms fr r1 mk r2 obtain im others where
    "Image_save L im out (map (\<lambda>size'. (size', size')) FAVICON_ICO_SIZES) others s2 = (None, s')"
    by (cases images) (auto simp: render_ico_def)
  from Image_save_ok [OF this] show ?thesis by auto
qed

lemma render_sizes_generated:
  "render_sizes L avatar out prefix sizes g s = (r, g', s') \<Longrightarrow>
     set g' \<subseteq> set g \<union> (\<lambda>sz. joinp out (filename prefix sz)) ` set sizes"
proof (induction sizes arbitrary: g s)
  case Nil
  then show ?case by simp
next
  case (Cons sz sizes)
  let ?p = "joinp out (filename prefix sz)"
  obtain r1 s1 where c: "render_png L avatar ?p sz s = (r1, s1)"
    by (cases "render_png L avatar ?p sz s")
  show ?case
  proof (cases r1)
    case (Some e)
    with Cons.prems c show ?thesis by auto
  next
    case None
    with Cons.prems c have "render_sizes L avatar out prefix sizes (g @ [?p]) s1 = (r, g', s')"
      by simp
    from Cons.IH [OF this] show ?thesis by auto
  qed
qed

lemma render_specs_generated:
  "render_specs L avatar out specs g s = (r, g', s') \<Longrightarrow>
     set g' \<subseteq> set g \<union> (\<lambda>(name, sz). joinp out name) ` set (planned_pngs specs)"
proof (induction specs arbitrary: g s)
  case Nil
  then show ?case by simp
next
  case (Cons spec specs)
  obtain prefix sizes where spec: "spec = (prefix, sizes)"
    by (cases spec)
  obtain r1 g1 s1 where c: "render_sizes L avatar out prefix sizes g s = (r1, g1, s1)"
    by (cases "render_sizes L avatar out prefix sizes g s")
  note h1 = render_sizes_generated [OF c]
  show ?case
  proof (cases r1)
    case (Some e)
    with Cons.prems c spec have "g' = g1" by simp
    with h1 show ?thesis
      unfolding spec planned_paths_Cons by blast
  next
    case None
    with Cons.prems c spec have "render_specs L avatar out specs g1 s1 = (r, g', s')"
      by simp
    from Cons.IH [OF this] h1 show ?thesis
      unfolding spec planned_paths_Cons by blast
  qed
qed

lemma planned_pngs_table:
  "planned_pngs DEFAULT_SPECS =
     [(''android-icon-36x36.png'', 36), (''android-icon-48x48.png'', 48),
      (''android-icon-72x72.png'', 72), (''android-icon-96x96.png'', 96),
      (''android-icon-144x144.png'', 144), (''android-icon-192x192.png'', 192),
      (''apple-icon-57x57.png'', 57), (''apple-icon-60x60.png'', 60),
      (''apple-icon-72x72.png'', 72), (''apple-icon-76x76.png'', 76),
      (''apple-icon-114x114.png'', 114), (''apple-icon-120x120.png'', 120),
      (''apple-icon-144x144.png'', 144), (''apple-icon-152x152.png'', 152),
      (''apple-icon-180x180.png'', 180),
      (''favicon-16x16.png'', 16), (''favicon-32x32.png'', 32), (''favicon-96x96.png'', 96),
      (''ms-icon-70x70.png'', 70), (''ms-icon-144x144.png'', 144),
      (''ms-icon-150x150.png'', 150)]"
  by code_simp

lemma render_sizes_content:
  assumes "render_sizes L avatar out prefix sizes g s = (None, g', s')"
    and "distinct (map (\<lambda>sz. joinp out (filename prefix sz)) sizes)"
    and "(\<lambda>sz. joinp out (filename prefix sz)) ` set sizes \<subseteq> P"
  shows "\<forall>sz \<in> set sizes. \<exists>d png.
           (avatar \<notin> P \<longrightarrow> files s avatar = Some d) \<and>
           convert L d sz sz = Some png \<and>
           files s' (joinp out (filename prefix sz)) = Some png"
  using assms
proof (induction sizes arbitrary: g s)
  case Nil
  then show ?case by simp
next
  case (Cons sz sizes)
  let ?p = "joinp out (filename prefix sz)"
  obtain r1 s1 where c: "render_png L avatar ?p sz s = (r1, s1)"
    by (cases "render_png L avatar ?p sz s")
  with Cons.prems(1) have r1: "r1 = None"
    by (cases r1) auto
  with Cons.prems(1) c
  have rest: "render_sizes L avatar out prefix sizes (g @ [?p]) s1 = (None, g', s')"
    by simp
  from render_png_ok(2) [OF c [unfolded r1]] obtain d png where
    d: "files s avatar = Some d" "convert L d sz sz = Some png" "files s1 = (files s)(?p \<mapsto> png)"
    by blast
  from Cons.prems(2) have np: "?p \<notin> (\<lambda>sz. joinp out (filename prefix sz)) ` set sizes"
    and dist: "distinct (map (\<lambda>sz. joinp out (filename prefix sz)) sizes)"
    by auto
  from Cons.prems(3) have sub: "(\<lambda>sz. joinp out (filename prefix sz)) ` set sizes \<subseteq> P"
    and pP: "?p \<in> P"
    by auto
  from render_sizes_frame [OF rest] np d(3) have head: "files s' ?p = Some png"
    by simp
  have same: "files s1 avatar = files s avatar" if "avatar \<notin> P"
    using that pP d(3) by auto
  have "\<exists>d png. (avatar \<notin> P \<longrightarrow> files s avatar = Some d) \<and> convert L d x x = Some png \<and>
          files s' (joinp out (filename prefix x)) = Some png" if x: "x \<in> set (sz # sizes)" for x
  proof (cases "joinp out (filename prefix x) = ?p")
    case True
    show ?thesis
    proof (cases "x = sz")
      case True
      with d head show ?thesis by blast
    next
      case False
      with x have "x \<in> set sizes" by simp
      then have "joinp out (filename prefix x) \<in> (\<lambda>sz. joinp out (filename prefix sz)) ` set sizes"
        by (rule imageI)
      with True np show ?thesis by simp
    qed
  next
    case False
    with x have "x \<in> set sizes" by auto
    with Cons.IH [OF rest dist sub] obtain d' png' where
      "avatar \<notin> P \<longrightarrow> files s1 avatar = Some d'" "convert L d' x x = Some png'"
      "files s' (joinp out (filename prefix x)) = Some png'"
      by blast
    with same show ?thesis by metis
  qed
  then show ?case by blast
qed

lemma render_specs_content:
  assumes "render_specs L avatar out specs g s = (None, g', s')"
    and "distinct (map (\<lambda>(name, sz). joinp out name) (planned_pngs specs))"
    and "(\<lambda>(name, sz). joinp out name) ` set (planned_pngs specs) \<subseteq> P"
  shows "\<forall>(name, sz) \<in> set (planned_pngs specs). \<exists>d png.
           (avatar \<notin> P \<longrightarrow> files s avatar = Some d) \<and>
           convert L d sz sz = Some png \<and>
           files s' (joinp out name) = Some png"
  using assms
proof (induction specs arbitrary: g s)
  case Nil
  then show ?case by (simp add: planned_pngs_def)
next
  case (Cons spec specs)
  obtain prefix sizes where spec: "spec = (prefix, sizes)"
    by (cases spec)
  let ?f = "\<lambda>sz. joinp out (filename prefix sz)"
  let ?rest = "(\<lambda>(name, sz). joinp out name) ` set (planned_pngs specs)"
  obtain r1 g1 s1 where c: "render_sizes L avatar out prefix sizes g s = (r1, g1, s1)"
    by (cases "render_sizes L avatar out prefix sizes g s")
  with Cons.prems(1) spec have r1: "r1 = None"
    by (cases r1) auto
  with Cons.prems(1) c spec have rest: "render_specs L avatar out specs g1 s1 = (None, g', s')"
    by simp
  have m: "map (\<lambda>(name, sz). joinp out name) (planned_pngs (spec # specs)) =
      map ?f sizes @ map (\<lambda>(name, sz). joinp out name) (planned_pngs specs)"
    by (simp add: spec planned_pngs_Cons comp_def)
  from Cons.prems(2) have d1: "distinct (map ?f sizes)"
    and d2: "distinct (map (\<lambda>(name, sz). joinp out name) (planned_pngs specs))"
    and disj: "?f ` set sizes \<inter> ?rest = {}"
    unfolding m by auto
  from Cons.prems(3) have s1: "?f ` set sizes \<subseteq> P" and s2: "?rest \<subseteq> P"
    unfolding spec planned_paths_Cons by auto
  note head = render_sizes_content [OF c [unfolded r1] d1 s1]
  note tail = Cons.IH [OF rest d2 s2]
  note fr1 = render_sizes_frame [OF c]
  note fr2 = render_specs_frame [OF rest]
  have same: "files s1 avatar = files s avatar" if "avatar \<notin> P"
  proof -
    from that s1 have "avatar \<notin> ?f ` set sizes" by blast
    with fr1 show ?thesis by blast
  qed
  have "\<exists>d png. (avatar \<notin> P \<longrightarrow> files s avatar = Some d) \<and> convert L d sz sz = Some png \<and>
          files s' (joinp out name) = Some png"
    if x: "(name, sz) \<in> set (planned_pngs (spec # specs))" for name sz
  proof (cases "(name, sz) \<in> set (planned_pngs specs)")
    case True
    with tail obtain d' png' where
      "avatar \<notin> P \<longrightarrow> files s1 avatar = Some d'" "convert L d' sz sz = Some png'"
      "files s' (joinp out name) = Some png'"
      by blast
    with same show ?thesis by metis
  next
    case False
    with x have n: "name = filename prefix sz" and sz: "sz \<in> set sizes"
      unfolding spec planned_pngs_Cons by auto
    with head obtain d png where
      h: "avatar \<notin> P \<longrightarrow> files s avatar = Some d" "convert L d sz sz = Some png"
      "files s1 (?f sz) = Some png"
      by blast
    from sz disj have "?f sz \<notin> ?rest" by blast
    with fr2 have "files s' (?f sz) = files s1 (?f sz)" by blast
    with h n show ?thesis by auto
  qed
  then show ?case by blast
qed

lemma favicon_ico_not_planned:
  "joinp out ''favicon.ico'' \<notin> (\<lambda>(name, sz). joinp out name) ` set (planned_pngs DEFAULT_SPECS)"
  by (simp add: planned_pngs_table joinp_plain)

lemma favicon_svg_not_planned:
  "joinp out ''favicon.svg'' \<notin> (\<lambda>(name, sz). joinp out name) ` set (planned_pngs DEFAULT_SPECS)"
  by (simp add: planned_pngs_table joinp_plain)

lemma favicon_svg_not_ico: "joinp out ''favicon.svg'' \<noteq> joinp out ''favicon.ico''"
  by (simp add: joinp_plain)

lemma main_Exit_0:
  assumes "main L script_dir a s = (Exit 0, generated, s')"
    and "avatar = resolve_svg script_dir s (avatar_svg a)
                    ''logo_thumbnail.svg'' ''brand-assets/logo_thumbnail.svg''"
    and "out = Path (out_dir a)"
  shows "\<exists>g1 s1 s2.
           render_specs L avatar out DEFAULT_SPECS [] s = (None, g1, s1) \<and>
           render_ico L avatar (joinp out ''favicon.ico'') s1 = (None, s2) \<and>
           (if skip_favicon_svg a then generated = g1 @ [joinp out ''favicon.ico''] \<and> s' = s2
            else generated = g1 @ [joinp out ''favicon.ico'', joinp out ''favicon.svg''] \<and>
                 write_favicon_svg avatar (joinp out ''favicon.svg'') FAVICON_SVG_SIZE s2
                   = (None, s'))"
proof -
  obtain r1 g1 s1 where sp: "render_specs L avatar out DEFAULT_SPECS [] s = (r1, g1, s1)"
    by (cases "render_specs L avatar out DEFAULT_SPECS [] s")
  obtain r2 s2 where ic: "render_ico L avatar (joinp out ''favicon.ico'') s1 = (r2, s2)"
    by (cases "render_ico L avatar (joinp out ''favicon.ico'') s1")
  obtain r3 s3 where fv:
    "write_favicon_svg avatar (joinp out ''favicon.svg'') FAVICON_SVG_SIZE s2 = (r3, s3)"
    by (cases "write_favicon_svg avatar (joinp out ''favicon.svg'') FAVICON_SVG_SIZE s2")
  from assms sp have r1: "r1 = None"
    by (cases r1) (auto simp: main_def Let_def split: if_splits)
  from assms sp ic r1 have r2: "r2 = None"
    by (cases r2) (auto simp: main_def Let_def split: if_splits)
  from assms sp ic fv r1 r2 show ?thesis
    by (cases r3) (auto simp: main_def Let_def split: if_splits)
qed

text \<open>
  C4. A run that ends with exit status 0 has asked for exactly the 21 PNG files of the
  table, in the order of the table, each by one request with the output width and height
  both equal to the size in its name and with \<open>out/<prefix>-<size>x<size>.png\<close> as the
  file to write; the only other conversion requests are the three in-memory frames of the
  icon container. The 21 paths are distinct, all of them are files when the run ends, and
  they open the list of generated files. Each of these files then holds the PNG that the
  converter returns for a document at a width and a height both equal to the size in the
  file's name; the document is the avatar as it was when the run began, unless the path
  of the avatar is itself one of the 21 paths.
\<close>

theorem main_renders_table:
  assumes "main L script_dir a s = (Exit 0, generated, s')"
    and "avatar = resolve_svg script_dir s (avatar_svg a)
                    ''logo_thumbnail.svg'' ''brand-assets/logo_thumbnail.svg''"
    and "out = Path (out_dir a)"
    and "table =
     [(''android-icon-36x36.png'', 36), (''android-icon-48x48.png'', 48),
      (''android-icon-72x72.png'', 72), (''android-icon-96x96.png'', 96),
      (''android-icon-144x144.png'', 144), (''android-icon-192x192.png'', 192),
      (''apple-icon-57x57.png'', 57), (''apple-icon-60x60.png'', 60),
      (''apple-icon-72x72.png'', 72), (''apple-icon-76x76.png'', 76),
      (''apple-icon-114x114.png'', 114), (''apple-icon-120x120.png'', 120),
      (''apple-icon-144x144.png'', 144), (''apple-icon-152x152.png'', 152),
      (''apple-icon-180x180.png'', 180),
      (''favicon-16x16.png'', 16), (''favicon-32x32.png'', 32), (''favicon-96x96.png'', 96),
      (''ms-icon-70x70.png'', 70), (''ms-icon-144x144.png'', 144),
      (''ms-icon-150x150.png'', 150)]"
  shows "generated =
           map (\<lambda>(name, sz). joinp out name) table @ joinp out ''favicon.ico'' #
             (if skip_favicon_svg a then [] else [joinp out ''favicon.svg'']) \<and>
         requests s' =
           requests s @
           map (\<lambda>(name, sz). Svg2png avatar (Some (joinp out name)) sz sz) table @
           [Svg2png avatar None 16 16, Svg2png avatar None 32 32, Svg2png avatar None 48 48] \<and>
         (\<lambda>(name, sz). joinp out name) ` set table \<subseteq> dom (files s') \<and>
         distinct (map (\<lambda>(name, sz). joinp out name) table) \<and>
         (\<forall>(name, sz) \<in> set table. \<exists>d png.
            (avatar \<notin> (\<lambda>(name, sz). joinp out name) ` set table \<longrightarrow>
               files s avatar = Some d) \<and>
            convert L d sz sz = Some png \<and>
            files s' (joinp out name) = Some png)"
proof -
  have table: "table = planned_pngs DEFAULT_SPECS"
    by (simp only: planned_pngs_table assms(4))
  have dist: "distinct (map (\<lambda>(name, sz). joinp out name) table)"
    unfolding assms(4) by (simp add: joinp_plain)
  from main_Exit_0 [OF assms(1-3)] obtain g1 s1 s2 where
    sp: "render_specs L avatar out DEFAULT_SPECS [] s = (None, g1, s1)" and
    ic: "render_ico L avatar (joinp out ''favicon.ico'') s1 = (None, s2)" and
    fv: "if skip_favicon_svg a then generated = g1 @ [joinp out ''favicon.ico''] \<and> s' = s2
         else generated = g1 @ [joinp out ''favicon.ico'', joinp out ''favicon.svg''] \<and>
              write_favicon_svg avatar (joinp out ''favicon.svg'') FAVICON_SVG_SIZE s2
                = (None, s')"
    by blast
  from render_specs_ok [OF sp]
  have g1: "g1 = map (\<lambda>(name, sz). joinp out name) table"
    and q1: "requests s1 = requests s @
       map (\<lambda>(name, sz). Svg2png avatar (Some (joinp out name)) sz sz) table"
    and e1: "\<forall>(name, sz) \<in> set table. files s1 (joinp out name) \<noteq> None"
    unfolding table by simp_all
  from render_ico_ok [OF ic]
  have q2: "requests s2 = requests s1 @
      [Svg2png avatar None 16 16, Svg2png avatar None 32 32, Svg2png avatar None 48 48]"
    by blast
  from render_ico_frame [OF ic]
  have m2: "\<And>p. files s1 p \<noteq> None \<Longrightarrow> files s2 p \<noteq> None"
    by blast
  have q3: "requests s' = requests s2" and m3: "\<And>p. files s2 p \<noteq> None \<Longrightarrow> files s' p \<noteq> None"
  proof -
    show "requests s' = requests s2"
    proof (cases "skip_favicon_svg a")
      case True
      with fv show ?thesis by simp
    next
      case False
      with fv write_favicon_svg_frame show ?thesis by metis
    qed
    show "files s' p \<noteq> None" if "files s2 p \<noteq> None" for p
    proof (cases "skip_favicon_svg a")
      case True
      with fv that show ?thesis by simp
    next
      case False
      with fv have "write_favicon_svg avatar (joinp out ''favicon.svg'') FAVICON_SVG_SIZE s2
                = (None, s')" by simp
      from write_favicon_svg_frame [OF this] that show ?thesis by blast
    qed
  qed
  have "generated =
           map (\<lambda>(name, sz). joinp out name) table @ joinp out ''favicon.ico'' #
             (if skip_favicon_svg a then [] else [joinp out ''favicon.svg''])"
    using fv g1 by (cases "skip_favicon_svg a") simp_all
  moreover have "requests s' =
           requests s @
           map (\<lambda>(name, sz). Svg2png avatar (Some (joinp out name)) sz sz) table @
           [Svg2png avatar None 16 16, Svg2png avatar None 32 32, Svg2png avatar None 48 48]"
    by (simp add: q3 q2 q1)
  moreover have "(\<lambda>(name, sz). joinp out name) ` set table \<subseteq> dom (files s')"
  proof
    fix p assume "p \<in> (\<lambda>(name, sz). joinp out name) ` set table"
    with e1 have "files s1 p \<noteq> None" by auto
    then have "files s' p \<noteq> None" by (intro m3 m2)
    then show "p \<in> dom (files s')" by auto
  qed
  moreover note dist
  moreover have "\<forall>(name, sz) \<in> set table. \<exists>d png.
            (avatar \<notin> (\<lambda>(name, sz). joinp out name) ` set table \<longrightarrow>
               files s avatar = Some d) \<and>
            convert L d sz sz = Some png \<and>
            files s' (joinp out name) = Some png"
  proof -
    have keep: "files s' p = files s1 p"
      if p: "p \<in> (\<lambda>(name, sz). joinp out name) ` set table" for p
    proof -
      from p have "p \<in> (\<lambda>(name, sz). joinp out name) ` set (planned_pngs DEFAULT_SPECS)"
        unfolding table .
      with favicon_ico_not_planned [of out] favicon_svg_not_planned [of out]
      have ne: "p \<noteq> joinp out ''favicon.ico''" "p \<noteq> joinp out ''favicon.svg''"
        by metis+
      from render_ico_frame [OF ic] ne(1) have a: "files s2 p = files s1 p"
        by blast
      have "files s' p = files s2 p"
      proof (cases "skip_favicon_svg a")
        case True
        with fv show ?thesis by simp
      next
        case False
        with fv have "write_favicon_svg avatar (joinp out ''favicon.svg'') FAVICON_SVG_SIZE s2
                  = (None, s')" by simp
        from write_favicon_svg_frame [OF this] ne(2) show ?thesis by blast
      qed
      with a show ?thesis by simp
    qed
    from render_specs_content [OF sp dist [unfolded table] subset_refl]
    have at1: "\<forall>(name, sz) \<in> set table. \<exists>d png.
            (avatar \<notin> (\<lambda>(name, sz). joinp out name) ` set table \<longrightarrow>
               files s avatar = Some d) \<and>
            convert L d sz sz = Some png \<and>
            files s1 (joinp out name) = Some png"
      unfolding table .
    show ?thesis
    proof (intro ballI, clarify)
      fix name sz assume x: "(name, sz) \<in> set table"
      with at1 obtain d png where
        h: "avatar \<notin> (\<lambda>(name, sz). joinp out name) ` set table \<longrightarrow> files s avatar = Some d"
        "convert L d sz sz = Some png" "files s1 (joinp out name) = Some png"
        by blast
      from x have "joinp out name \<in> (\<lambda>(name, sz). joinp out name) ` set table"
        by force
      from keep [OF this] h
      show "\<exists>d png.
            (avatar \<notin> (\<lambda>(name, sz). joinp out name) ` set table \<longrightarrow>
               files s avatar = Some d) \<and>
            convert L d sz sz = Some png \<and>
            files s' (joinp out name) = Some png"
        by auto
    qed
  qed
  ultimately show ?thesis by blast
qed

theorem main_renders_table_witness:
  "fst (main example_libs (PosixPath ''/'' [''repo'']) example_args example_state) = Exit 0 \<and>
   length (fst (snd (main example_libs (PosixPath ''/'' [''repo'']) example_args example_state))) = 23 \<and>
   joinp (Path ''public/icons'') ''ms-icon-150x150.png''
     \<in> dom (files (snd (snd (main example_libs (PosixPath ''/'' [''repo'']) example_args
                                example_state)))) \<and>
   length (requests (snd (snd (main example_libs (PosixPath ''/'' [''repo'']) example_args
                                  example_state)))) = 24 \<and>
   convert example_libs plain_svg 150 150 = Some ''PNG 150x150'' \<and>
   files (snd (snd (main example_libs (PosixPath ''/'' [''repo'']) example_args example_state)))
       (joinp (Path ''public/icons'') ''ms-icon-150x150.png'')
     = Some ''PNG 150x150''"
proof -
  let ?m = "main example_libs (PosixPath ''/'' [''repo'']) example_args example_state"
  have ok: "fst ?m = Exit 0"
    by code_simp
  then have run: "?m = (Exit 0, fst (snd ?m), snd (snd ?m))"
    by (simp add: prod_eq_iff)
  have a: "skip_favicon_svg example_args = False" "out_dir example_args = ''public/icons''"
    "requests example_state = []"
    by (simp_all add: example_args_def example_state_def)
  have c: "convert example_libs plain_svg 150 150 = Some ''PNG 150x150''"
    by code_simp
  have f: "files (snd (snd ?m)) (joinp (Path ''public/icons'') ''ms-icon-150x150.png'')
     = Some ''PNG 150x150''"
    by code_simp
  note th = main_renders_table [OF run refl refl refl]
  from th [THEN conjunct1] have "length (fst (snd ?m)) = 23"
    by (simp add: a)
  moreover from th [THEN conjunct2, THEN conjunct1] have "length (requests (snd (snd ?m))) = 24"
    by (simp add: a)
  moreover from th [THEN conjunct2, THEN conjunct2, THEN conjunct1]
  have "joinp (Path ''public/icons'') ''ms-icon-150x150.png'' \<in> dom (files (snd (snd ?m)))"
    by (simp add: a)
  ultimately show ?thesis
    using ok c f by simp
qed

lemma main_early:
  assumes "\<not> (path_exists s (resolve_svg script_dir s (avatar_svg a)
                    ''logo_thumbnail.svg'' ''brand-assets/logo_thumbnail.svg'') \<and>
              require_packages L)"
  shows "main L script_dir a s = (Exit 1, [], s)"
  using assms by (auto simp: main_def Let_def)

lemma main_late:
  assumes "avatar = resolve_svg script_dir s (avatar_svg a)
                    ''logo_thumbnail.svg'' ''brand-assets/logo_thumbnail.svg''"
    and "out = Path (out_dir a)"
    and "path_exists s avatar" and "require_packages L"
  shows "render_specs L avatar out DEFAULT_SPECS [] s = (Some e, g, sa) \<Longrightarrow>
           main L script_dir a s = (Raised e, g, sa)"
    and "render_specs L avatar out DEFAULT_SPECS [] s = (None, g, sa) \<Longrightarrow>
         render_ico L avatar (joinp out ''favicon.ico'') sa = (Some e, sb) \<Longrightarrow>
           main L script_dir a s = (Raised e, g, sb)"
    and "render_specs L avatar out DEFAULT_SPECS [] s = (None, g, sa) \<Longrightarrow>
         render_ico L avatar (joinp out ''favicon.ico'') sa = (None, sb) \<Longrightarrow>
         skip_favicon_svg a \<Longrightarrow>
           main L script_dir a s = (Exit 0, g @ [joinp out ''favicon.ico''], sb)"
    and "render_specs L avatar out DEFAULT_SPECS [] s = (None, g, sa) \<Longrightarrow>
         render_ico L avatar (joinp out ''favicon.ico'') sa = (None, sb) \<Longrightarrow>
         \<not> skip_favicon_svg a \<Longrightarrow>
         write_favicon_svg avatar (joinp out ''favicon.svg'') FAVICON_SVG_SIZE sb = (Some e, sc) \<Longrightarrow>
           main L script_dir a s = (Raised e, g @ [joinp out ''favicon.ico''], sc)"
    and "render_specs L avatar out DEFAULT_SPECS [] s = (None, g, sa) \<Longrightarrow>
         render_ico L avatar (joinp out ''favicon.ico'') sa = (None, sb) \<Longrightarrow>
         \<not> skip_favicon_svg a \<Longrightarrow>
         write_favicon_svg avatar (joinp out ''favicon.svg'') FAVICON_SVG_SIZE sb = (None, sc) \<Longrightarrow>
           main L script_dir a s =
             (Exit 0, g @ [joinp out ''favicon.ico'', joinp out ''favicon.svg''], sc)"
  using assms by (simp_all add: main_def Let_def)

text \<open>
  C6. Two runs from the same state that differ only in the flag. The run with the flag
  never lists \<^verbatim>\<open>favicon.svg\<close> as generated and leaves that path as it found it; when it
  ends with status 0 it has generated 22 files. Every other file, every directory and
  every conversion request is the same after both runs, and the list of generated files
  of the run without the flag is the same list, followed by \<^verbatim>\<open>favicon.svg\<close> when that run
  ends with status 0.
\<close>

theorem skip_favicon_svg_omits_only_favicon_svg:
  assumes "main L script_dir (a\<lparr>skip_favicon_svg := True\<rparr>) s = (r1, g1, s1)"
    and "main L script_dir (a\<lparr>skip_favicon_svg := False\<rparr>) s = (r2, g2, s2)"
    and "svg = joinp (Path (out_dir a)) ''favicon.svg''"
  shows "svg \<notin> set g1 \<and> files s1 svg = files s svg \<and>
         (r1 = Exit 0 \<longrightarrow> length g1 = 22) \<and>
         (\<forall>p. p \<noteq> svg \<longrightarrow> files s2 p = files s1 p) \<and>
         dirs s2 = dirs s1 \<and> requests s2 = requests s1 \<and>
         g2 = g1 @ (if r2 = Exit 0 then [svg] else [])"
proof -
  define avatar where "avatar = resolve_svg script_dir s (avatar_svg a)
                    ''logo_thumbnail.svg'' ''brand-assets/logo_thumbnail.svg''"
  define out where "out = Path (out_dir a)"
  have svg: "svg = joinp out ''favicon.svg''"
    by (simp add: assms(3) out_def)
  show ?thesis
  proof (cases "path_exists s avatar \<and> require_packages L")
    case False
    then have "main L script_dir (a\<lparr>skip_favicon_svg := b\<rparr>) s = (Exit 1, [], s)" for b
      by (intro main_early) (simp add: avatar_def)
    with assms(1,2) have "(r1, g1, s1) = (Exit 1, [], s)" "(r2, g2, s2) = (Exit 1, [], s)"
      by simp_all
    then show ?thesis by simp
  next
    case True
    then have pe: "path_exists s avatar" and rp: "require_packages L"
      by simp_all
    have av: "avatar = resolve_svg script_dir s (avatar_svg (a\<lparr>skip_favicon_svg := b\<rparr>))
                    ''logo_thumbnail.svg'' ''brand-assets/logo_thumbnail.svg''"
      and ou: "out = Path (out_dir (a\<lparr>skip_favicon_svg := b\<rparr>))" for b
      by (simp_all add: avatar_def out_def)
    note late = main_late [OF av ou pe rp]
    obtain e1 ga sa where sp: "render_specs L avatar out DEFAULT_SPECS [] s = (e1, ga, sa)"
      by (cases "render_specs L avatar out DEFAULT_SPECS [] s")
    from render_specs_generated [OF sp] favicon_svg_not_planned [of out]
    have ga: "svg \<notin> set ga"
      unfolding svg by auto
    from render_specs_frame [OF sp] favicon_svg_not_planned [of out]
    have fa: "files sa svg = files s svg"
      unfolding svg by blast
    show ?thesis
    proof (cases e1)
      case (Some e)
      from late(1) [OF sp [unfolded Some]] assms(1,2)
      have "(r1, g1, s1) = (Raised e, ga, sa)" "(r2, g2, s2) = (Raised e, ga, sa)"
        by simp_all
      with ga fa show ?thesis by simp
    next
      case None
      note sp' = sp [unfolded None]
      from render_specs_ok [OF sp'] have len: "length ga = 21"
        by (simp add: planned_pngs_table)
      obtain e2 sb where ic: "render_ico L avatar (joinp out ''favicon.ico'') sa = (e2, sb)"
        by (cases "render_ico L avatar (joinp out ''favicon.ico'') sa")
      from render_ico_frame [OF ic] favicon_svg_not_ico [of out] fa
      have fb: "files sb svg = files s svg"
        unfolding svg by simp
      show ?thesis
      proof (cases e2)
        case (Some e)
        from late(2) [OF sp' ic [unfolded Some]] assms(1,2)
        have "(r1, g1, s1) = (Raised e, ga, sb)" "(r2, g2, s2) = (Raised e, ga, sb)"
          by simp_all
        with ga fb show ?thesis by simp
      next
        case ok: None
        note ic' = ic [unfolded ok]
        from late(3) [OF sp' ic', of True] assms(1)
        have run1: "r1 = Exit 0" "g1 = ga @ [joinp out ''favicon.ico'']" "s1 = sb"
          by simp_all
        from render_ico_ok_dir [OF ic'] have dir: "parent svg \<in> dirs sb"
          by (simp add: svg parent_joinp_plain)
        obtain e3 sc where fv: "write_favicon_svg avatar svg FAVICON_SVG_SIZE sb = (e3, sc)"
          by (cases "write_favicon_svg avatar svg FAVICON_SVG_SIZE sb")
        from write_favicon_svg_frame [OF fv] dir
        have fc: "requests sc = requests sb" "dirs sc = dirs sb"
          "\<forall>p. p \<noteq> svg \<longrightarrow> files sc p = files sb p"
          by blast+
        have run2: "s2 = sc \<and> g2 = g1 @ (if r2 = Exit 0 then [svg] else [])"
        proof (cases e3)
          case (Some e)
          from late(4) [OF sp' ic' _ fv [unfolded svg Some], of False] assms(2) run1
          show ?thesis by simp
        next
          case None
          from late(5) [OF sp' ic' _ fv [unfolded svg None], of False] assms(2) run1
          show ?thesis by (simp add: svg)
        qed
        from ga favicon_svg_not_ico [of out] have "svg \<notin> set g1"
          by (simp add: run1 svg)
        with run1 run2 fb fc len show ?thesis
          by simp
      qed
    qed
  qed
qed

theorem skip_favicon_svg_omits_only_favicon_svg_witness:
  "fst (main example_libs (PosixPath ''/'' [''repo'']) (example_args\<lparr>skip_favicon_svg := True\<rparr>)
          example_state) = Exit 0 \<and>
   length (fst (snd (main example_libs (PosixPath ''/'' [''repo''])
                       (example_args\<lparr>skip_favicon_svg := True\<rparr>) example_state))) = 22 \<and>
   files (snd (snd (main example_libs (PosixPath ''/'' [''repo''])
                      (example_args\<lparr>skip_favicon_svg := True\<rparr>) example_state)))
       (joinp (Path ''public/icons'') ''favicon.svg'') = None \<and>
   fst (main example_libs (PosixPath ''/'' [''repo'']) (example_args\<lparr>skip_favicon_svg := False\<rparr>)
          example_state) = Exit 0 \<and>
   length (fst (snd (main example_libs (PosixPath ''/'' [''repo''])
                       (example_args\<lparr>skip_favicon_svg := False\<rparr>) example_state))) = 23 \<and>
   files (snd (snd (main example_libs (PosixPath ''/'' [''repo''])
                      (example_args\<lparr>skip_favicon_svg := False\<rparr>) example_state)))
       (joinp (Path ''public/icons'') ''favicon.svg'') = Some plain_svg \<and>
   files (snd (snd (main example_libs (PosixPath ''/'' [''repo''])
                      (example_args\<lparr>skip_favicon_svg := False\<rparr>) example_state)))
       (joinp (Path ''public/icons'') ''favicon.ico'')
     = files (snd (snd (main example_libs (PosixPath ''/'' [''repo''])
                      (example_args\<lparr>skip_favicon_svg := True\<rparr>) example_state)))
       (joinp (Path ''public/icons'') ''favicon.ico'')"
proof -
  let ?m1 = "main example_libs (PosixPath ''/'' [''repo'']) (example_args\<lparr>skip_favicon_svg := True\<rparr>)
               example_state"
  let ?m2 = "main example_libs (PosixPath ''/'' [''repo'']) (example_args\<lparr>skip_favicon_svg := False\<rparr>)
               example_state"
  have ok1: "fst ?m1 = Exit 0" and ok2: "fst ?m2 = Exit 0"
    by code_simp+
  have svg2: "files (snd (snd ?m2)) (joinp (Path ''public/icons'') ''favicon.svg'') = Some plain_svg"
    by code_simp
  have run1: "?m1 = (fst ?m1, fst (snd ?m1), snd (snd ?m1))"
    and run2: "?m2 = (fst ?m2, fst (snd ?m2), snd (snd ?m2))"
    by simp_all
  have before: "files example_state (joinp (Path ''public/icons'') ''favicon.svg'') = None"
    by code_simp
  have ne: "joinp (Path ''public/icons'') ''favicon.ico'' \<noteq> joinp (Path ''public/icons'') ''favicon.svg''"
    by code_simp
  have o: "out_dir example_args = ''public/icons''"
    by (simp add: example_args_def)
  from skip_favicon_svg_omits_only_favicon_svg [OF run1 run2 refl] ok1 ok2 svg2 before ne
  show ?thesis
    by (simp add: o)
qed

end
